theory Spec2Isabelle
  imports Main "HOL-Library.Word" "HOL-Library.Char_ord" "HOL-Library.List_Lexorder"
begin

unbundle bit_operations_syntax

section \<open>Bytes, strings and failures\<close>

text \<open>
  A Go \<open>byte\<close> is an 8-bit word; a Go \<open>string\<close> and a \<open>[]byte\<close> are both sequences of
  bytes. Literals are written with \<open>str\<close>. PDF names and lexer keywords are only ever
  compared with literals and are kept as HOL strings.
\<close>

type_synonym byte = "8 word"
type_synonym bytes = "byte list"

definition str :: "string \<Rightarrow> bytes" where
  "str s = map of_char s"

text \<open>
  A Go \<open>panic\<close> and a returned \<open>error\<close> are both values of the model; the message is
  the one the source logs or raises.
\<close>

datatype failure = Panic string | Error string

section \<open>Runes and UTF-8\<close>

text \<open>
  A \<open>rune\<close> is a code point. \<open>decodeRune\<close> is \<open>utf8.DecodeRuneInString\<close>: the first rune
  of a string and its width in bytes; \<open>(RuneError, 0)\<close> on the empty string and
  \<open>(RuneError, 1)\<close> on a byte that starts no valid encoding (a continuation byte out of
  range, an overlong form, a surrogate, a value above \<open>U+10FFFF\<close>, a truncated sequence).
\<close>

type_synonym rune = int

definition RuneError :: rune where
  "RuneError = 0xFFFD"

definition isCont :: "byte \<Rightarrow> bool" where
  "isCont b \<longleftrightarrow> 0x80 \<le> b \<and> b \<le> 0xBF"

fun decodeRune :: "bytes \<Rightarrow> rune \<times> nat" where
  "decodeRune [] = (RuneError, 0)"
| "decodeRune (s0 # rest) =
     (if s0 < 0x80 then (uint s0, 1)
      else if s0 < 0xC2 \<or> 0xF4 < s0 then (RuneError, 1)
      else if s0 < 0xE0 then
        (case rest of
           s1 # _ \<Rightarrow>
             if isCont s1 then (uint (s0 AND 0x1F) * 64 + uint (s1 AND 0x3F), 2)
             else (RuneError, 1)
         | _ \<Rightarrow> (RuneError, 1))
      else if s0 < 0xF0 then
        (case rest of
           s1 # s2 # _ \<Rightarrow>
             if (if s0 = 0xE0 then 0xA0 else 0x80) \<le> s1
                \<and> s1 \<le> (if s0 = 0xED then 0x9F else 0xBF) \<and> isCont s2
             then (uint (s0 AND 0x0F) * 4096 + uint (s1 AND 0x3F) * 64 + uint (s2 AND 0x3F), 3)
             else (RuneError, 1)
         | _ \<Rightarrow> (RuneError, 1))
      else
        (case rest of
           s1 # s2 # s3 # _ \<Rightarrow>
             if (if s0 = 0xF0 then 0x90 else 0x80) \<le> s1
                \<and> s1 \<le> (if s0 = 0xF4 then 0x8F else 0xBF) \<and> isCont s2 \<and> isCont s3
             then (uint (s0 AND 0x07) * 262144 + uint (s1 AND 0x3F) * 4096
                     + uint (s2 AND 0x3F) * 64 + uint (s3 AND 0x3F), 4)
             else (RuneError, 1)
         | _ \<Rightarrow> (RuneError, 1)))"

lemma decodeRune_width: "s \<noteq> [] \<Longrightarrow> 0 < snd (decodeRune s)"
  by (cases s) (auto split: list.splits)

lemma decodeRune_width_le: "snd (decodeRune s) \<le> length s"
  by (cases s) (auto split: list.splits)



text \<open>\<open>utf8.EncodeRune\<close>, as used by \<open>string(r)\<close> and \<open>WriteRune\<close>: a surrogate or a value
  out of range is written as \<open>U+FFFD\<close>.\<close>

definition encodeRune :: "rune \<Rightarrow> bytes" where
  "encodeRune r =
     (if r < 0 \<or> 0x10FFFF < r \<or> (0xD800 \<le> r \<and> r \<le> 0xDFFF) then [0xEF, 0xBF, 0xBD]
      else if r \<le> 0x7F then [word_of_int r]
      else if r \<le> 0x7FF then [word_of_int (192 + r div 64), word_of_int (128 + r mod 64)]
      else if r \<le> 0xFFFF then
        [word_of_int (224 + r div 4096), word_of_int (128 + (r div 64) mod 64),
         word_of_int (128 + r mod 64)]
      else [word_of_int (240 + r div 262144), word_of_int (128 + (r div 4096) mod 64),
            word_of_int (128 + (r div 64) mod 64), word_of_int (128 + r mod 64)])"

definition stringOfRunes :: "rune list \<Rightarrow> bytes" where
  "stringOfRunes rs = concat (map encodeRune rs)"

text \<open>
  Modelled from the spec: \<open>utf16Decode\<close> is not in the sources at hand. Section 4.6:
  "Decoded replacements are UTF-16BE-decoded"; \<open>TestUtf16Decode\<close> expects \<open>AB\<close> for the bytes
  \<open>00 41 00 42\<close>, and \<open>TestCmapDecode\<close> expects \<open>U+1F600\<close> for the surrogate pair
  \<open>D8 3D DE 00\<close>. The bytes are taken two by two as 16-bit units, the units decoded as
  \<open>utf16.Decode\<close> does (a surrogate without its partner is \<open>U+FFFD\<close>) and the runes written
  as UTF-8. Neither says what a string of odd length gives: its last byte is left out here.
\<close>

fun utf16Units :: "bytes \<Rightarrow> int list" where
  "utf16Units (a # b # rest) = (uint a * 256 + uint b) # utf16Units rest"
| "utf16Units rest = []"

fun utf16Runes :: "int list \<Rightarrow> rune list" where
  "utf16Runes [] = []"
| "utf16Runes [u] = [if 0xD800 \<le> u \<and> u < 0xE000 then RuneError else u]"
| "utf16Runes (u # v # rest) =
     (if u < 0xD800 \<or> 0xE000 \<le> u then u # utf16Runes (v # rest)
      else if u < 0xDC00 \<and> 0xDC00 \<le> v \<and> v < 0xE000
      then ((u - 0xD800) * 1024 + (v - 0xDC00) + 0x10000) # utf16Runes rest
      else RuneError # utf16Runes (v # rest))"

definition utf16DecodeBE :: "bytes \<Rightarrow> bytes" where
  "utf16DecodeBE s = stringOfRunes (utf16Runes (utf16Units s))"

text \<open>
  Modelled from the spec: \<open>DecodeUTF8OrPreserve\<close> is not in the sources at hand. Section
  4.6: bytes are emitted "as UTF-8 (valid runes preserved, otherwise the raw byte value
  is emitted as a rune)"; \<open>TestDecodeUTF8OrPreserve\<close> expects the runes \<open>0xff, 0xfe\<close> for
  the bytes \<open>ff fe\<close>.
\<close>

function DecodeUTF8OrPreserve :: "bytes \<Rightarrow> rune list" where
  "DecodeUTF8OrPreserve s =
     (if s = [] then []
      else if fst (decodeRune s) = RuneError \<and> snd (decodeRune s) = 1
      then uint (hd s) # DecodeUTF8OrPreserve (tl s)
      else fst (decodeRune s) # DecodeUTF8OrPreserve (drop (snd (decodeRune s)) s))"
  by pat_completeness auto
termination
  by (relation "measure length") (auto simp add: decodeRune_width)

declare DecodeUTF8OrPreserve.simps [simp del]

text \<open>
  \<open>unicode.IsSpace\<close>, \<open>utf8.DecodeLastRuneInString\<close> and \<open>strings.TrimSpace\<close> (leading and
  trailing white space removed, rune by rune; a byte that cannot be decoded is not white
  space).
\<close>

definition isSpaceRune :: "rune \<Rightarrow> bool" where
  "isSpaceRune r \<longleftrightarrow>
     (0x09 \<le> r \<and> r \<le> 0x0D) \<or> r = 0x20 \<or> r = 0x85 \<or> r = 0xA0 \<or> r = 0x1680
     \<or> (0x2000 \<le> r \<and> r \<le> 0x200A) \<or> r = 0x2028 \<or> r = 0x2029 \<or> r = 0x202F
     \<or> r = 0x205F \<or> r = 0x3000"

definition RuneStart :: "byte \<Rightarrow> bool" where
  "RuneStart b \<longleftrightarrow> b AND 0xC0 \<noteq> 0x80"

text \<open>
  The start of the last rune: the search goes back from the byte before the last one,
  over at most three bytes, to the first byte that is not a continuation byte.
\<close>

definition lastRuneStart :: "bytes \<Rightarrow> nat" where
  "lastRuneStart s =
     (let lim = length s - 4 in
      case filter (\<lambda>i. RuneStart (s ! i)) (rev [lim ..< length s - 1]) of
        [] \<Rightarrow> lim - 1
      | i # _ \<Rightarrow> i)"

definition decodeLastRune :: "bytes \<Rightarrow> rune \<times> nat" where
  "decodeLastRune s =
     (if s = [] then (RuneError, 0)
      else if last s < 0x80 then (uint (last s), 1)
      else (let d = decodeRune (drop (lastRuneStart s) s)
            in if lastRuneStart s + snd d \<noteq> length s then (RuneError, 1) else d))"

lemma lastRuneStart_less: "s \<noteq> [] \<Longrightarrow> lastRuneStart s < length s"
proof -
  assume a: "s \<noteq> []"
  let ?xs = "filter (\<lambda>i. RuneStart (s ! i)) (rev [length s - 4 ..< length s - 1])"
  show ?thesis
  proof (cases ?xs)
    case Nil
    with a show ?thesis by (simp add: lastRuneStart_def Let_def)
  next
    case (Cons i js)
    then have "i \<in> set ?xs" by simp
    then have "i < length s - 1" by simp
    with Cons show ?thesis by (simp add: lastRuneStart_def Let_def)
  qed
qed

lemma decodeLastRune_width: "s \<noteq> [] \<Longrightarrow> 0 < snd (decodeLastRune s)"
  using lastRuneStart_less [of s]
  by (auto simp add: decodeLastRune_def Let_def)

function trimLeftSpace :: "bytes \<Rightarrow> bytes" where
  "trimLeftSpace s =
     (if s = [] then []
      else if isSpaceRune (fst (decodeRune s)) then trimLeftSpace (drop (snd (decodeRune s)) s)
      else s)"
  by pat_completeness auto
termination
  by (relation "measure length") (auto simp add: decodeRune_width)

declare trimLeftSpace.simps [simp del]

function trimRightSpace :: "bytes \<Rightarrow> bytes" where
  "trimRightSpace s =
     (if s = [] then []
      else if isSpaceRune (fst (decodeLastRune s))
      then trimRightSpace (take (length s - snd (decodeLastRune s)) s)
      else s)"
  by pat_completeness auto
termination
  by (relation "measure length") (auto simp add: decodeLastRune_width)

declare trimRightSpace.simps [simp del]

definition TrimSpace :: "bytes \<Rightarrow> bytes" where
  "TrimSpace s = trimRightSpace (trimLeftSpace s)"

section \<open>Locating \<open>startxref\<close>: \<open>findLastLine\<close>\<close>

text \<open>\<open>bytes.Index(b, sep)\<close>: the index of the first occurrence of \<open>sep\<close>, or \<open>-1\<close>.\<close>

fun bytes_Index :: "bytes \<Rightarrow> bytes \<Rightarrow> int" where
  "bytes_Index [] sep = (if sep = [] then 0 else - 1)"
| "bytes_Index (b # bs) sep =
     (if take (length sep) (b # bs) = sep then 0
      else (let j = bytes_Index bs sep in if j < 0 then - 1 else j + 1))"

text \<open>
  \<open>wsBits\<close> is the 256-bit table filled by \<open>init\<close>:
  \<open>wsBits[b>>6] |= 1 << (b & 63)\<close> for each of the six bytes.
\<close>

definition wsBits_set :: "64 word list \<Rightarrow> byte \<Rightarrow> 64 word list" where
  "wsBits_set t b =
     t[unat (drop_bit 6 b) := (t ! unat (drop_bit 6 b)) OR push_bit (unat (b AND 63)) 1]"

definition wsBits :: "64 word list" where
  "wsBits = foldl wsBits_set [0, 0, 0, 0] [0x00, 0x09, 0x0A, 0x0C, 0x0D, 0x20]"

definition isWhitespace :: "byte \<Rightarrow> bool" where
  "isWhitespace b \<longleftrightarrow>
     (wsBits ! unat (drop_bit 6 b)) AND push_bit (unat (b AND 63)) 1 \<noteq> 0"

text \<open>\<open>SkipWhitespace(buf, j)\<close>: \<open>for j < len(buf) && isWhitespace(buf[j]) { j++ }\<close>.\<close>

function SkipWhitespace :: "bytes \<Rightarrow> nat \<Rightarrow> nat" where
  "SkipWhitespace buf j =
     (if j < length buf \<and> isWhitespace (buf ! j) then SkipWhitespace buf (Suc j) else j)"
  by pat_completeness auto
termination
  by (relation "measure (\<lambda>(buf, j). length buf - j)") auto

declare SkipWhitespace.simps [simp del]

text \<open>
  \<open>EndsWithEOL(buf, start, end)\<close> reads \<open>buf[end-1]\<close> when \<open>end > start\<close>; an index
  outside the slice panics in Go.
\<close>

definition EndsWithEOL :: "bytes \<Rightarrow> nat \<Rightarrow> nat \<Rightarrow> failure + bool" where
  "EndsWithEOL buf start end' =
     (if end' > start then
        (if end' - 1 < length buf then
           (let last = buf ! (end' - 1) in Inr (last = 0x0A \<or> last = 0x0D))
         else Inl (Panic ''index out of range''))
      else Inr False)"

text \<open>
  The first loop of \<open>findLastLine\<close> collects every occurrence:
  \<open>for i := 0; ; { j := bytes.Index(buf[i:], bs); if j < 0 { break };
  indices = append(indices, i+j); i += j + 1 }\<close>. Slicing \<open>buf[i:]\<close> with
  \<open>i > len(buf)\<close> panics (only reachable with an empty keyword).
\<close>

function occurrences :: "bytes \<Rightarrow> bytes \<Rightarrow> nat \<Rightarrow> nat list \<Rightarrow> failure + nat list" where
  "occurrences buf bs i indices =
     (if length buf < i then Inl (Panic ''slice bounds out of range'')
      else (let j = bytes_Index (drop i buf) bs in
        if j < 0 then Inr indices
        else occurrences buf bs (i + nat j + 1) (indices @ [i + nat j])))"
  by pat_completeness auto
termination
  by (relation "measure (\<lambda>(buf, bs, i, indices). Suc (length buf) - i)") auto

declare occurrences.simps [simp del]

text \<open>
  The second loop walks the matches backwards (\<open>k := len(indices)-1 .. 0\<close>); the
  argument here is the list of matches already reversed.
\<close>

fun walkBack :: "bytes \<Rightarrow> nat \<Rightarrow> nat list \<Rightarrow> failure + int" where
  "walkBack buf n [] = Inr (- 1)"
| "walkBack buf n (i # is) =
     (let j = SkipWhitespace buf (i + n) in
      case EndsWithEOL buf (i + n) j of
        Inl e \<Rightarrow> Inl e
      | Inr True \<Rightarrow> Inr (int i)
      | Inr False \<Rightarrow> walkBack buf n is)"

definition findLastLine :: "bytes \<Rightarrow> bytes \<Rightarrow> failure + int" where
  "findLastLine buf s =
     (case occurrences buf s 0 [] of
        Inl e \<Rightarrow> Inl e
      | Inr indices \<Rightarrow> walkBack buf (length s) (rev indices))"

section \<open>Objects, values and the reader\<close>

text \<open>
  \<open>objptr{id uint32; gen uint16}\<close> and the \<open>xref\<close> slot of the source. The zero
  \<open>objptr{}\<close> marks an empty slot.
\<close>

record objptr =
  p_id :: "32 word"
  p_gen :: "16 word"

definition objptr0 :: objptr where
  "objptr0 = \<lparr>p_id = 0, p_gen = 0\<rparr>"

record xref =
  x_ptr :: objptr
  x_inStream :: bool
  x_stream :: objptr
  x_offset :: "64 word"

definition xref0 :: xref where
  "xref0 = \<lparr>x_ptr = objptr0, x_inStream = False, x_stream = objptr0, x_offset = 0\<rparr>"

text \<open>
  The dynamic type \<open>object\<close> (\<open>interface{}\<close>) with the cases the source switches on.
  A \<open>float64\<close> is kept as its IEEE-754 bit pattern, an \<open>int64\<close> as a 64-bit word read
  with \<open>sint\<close>. A \<open>dict\<close> (\<open>map[name]object\<close>) is an association list in which the
  first binding of a key counts; \<open>OStream hdr ptr offset\<close> is \<open>stream{hdr, ptr, offset}\<close>,
  \<open>ODef\<close> an \<open>objdef\<close>, \<open>OKeyword\<close> a lexer keyword.
\<close>

type_synonym float64 = "64 word"

datatype obj =
    ONull
  | OBool bool
  | OInt "64 word"
  | OReal float64
  | OString bytes
  | OName string
  | ODict "(string \<times> obj) list"
  | OArray "obj list"
  | OStream "(string \<times> obj) list" objptr "64 word"
  | ORef objptr
  | ODef objptr obj
  | OKeyword string

type_synonym dict = "(string \<times> obj) list"

text \<open>\<open>d[name(key)]\<close>: a missing key reads as \<open>nil\<close>.\<close>

definition dict_get :: "dict \<Rightarrow> string \<Rightarrow> obj" where
  "dict_get d k = (case map_of d k of None \<Rightarrow> ONull | Some x \<Rightarrow> x)"

text \<open>
  A \<open>Value\<close> is \<open>{r, ptr, data}\<close>. The back-pointer \<open>r\<close> is the reader every function
  below takes as an argument; the zero \<open>Value{}\<close> is the PDF null.
\<close>

record Value =
  v_ptr :: objptr
  v_data :: obj

definition Value0 :: Value where
  "Value0 = \<lparr>v_ptr = objptr0, v_data = ONull\<rparr>"

record Reader =
  r_f :: bytes
  r_end :: "64 word"
  r_xref :: "xref list"
  r_trailer :: dict
  r_trailerptr :: objptr

text \<open>
  What \<open>encoding/xml\<close> fills in for one \<open>rdf:Description\<close> (\<open>rdfDescription\<close>): the
  \<open>rdf:li\<close> items of the \<open>Alt\<close> and \<open>Seq\<close> containers and the character data of the
  simple elements.
\<close>

record rdfDescription =
  d_Title :: "bytes list"
  d_Description :: "bytes list"
  d_Creator :: "bytes list"
  d_PDFProducer :: bytes
  d_PDFKeywords :: bytes
  d_XMPCreatorTool :: bytes
  d_XMPCreateDate :: bytes
  d_XMPModifyDate :: bytes

text \<open>
  The code these functions call but that is not part of the sources at hand (the lexer and
  object parser behind \<open>newBuffer\<close>, the text-string helpers) or that belongs to the Go
  library (\<open>compress/zlib\<close>, \<open>encoding/ascii85\<close>, \<open>encoding/xml\<close>, the conversion
  \<open>float64(int64)\<close>) is collected in one record and passed to every function that needs it:
  \<^item> \<open>readObjectAt f off\<close>: what \<open>readObject\<close> returns on a fresh buffer over the file
    \<open>f\<close> at offset \<open>off\<close>;
  \<^item> \<open>objStmLookup f strm n first id\<close>: lines 1309-1320 of \<open>resolve\<close>: decode the object
    stream, read \<open>n\<close> pairs \<open>(id, off)\<close>, and at the first pair with the wanted id seek to
    \<open>first + off\<close> and read one object (\<open>None\<close> when no pair matches);
  \<^item> \<open>tokensAt f off\<close>: the tokens and objects a fresh buffer over \<open>f\<close> at \<open>off\<close> yields
    before the input ends;
  \<^item> \<open>readXrefStream f b\<close>: the xref-stream path, \<open>readXrefStream\<close> on the buffer \<open>b\<close>
    over \<open>f\<close> (it decodes a stream, and is not modelled further): the table, the stream's
    pointer and its header;
  \<^item> \<open>validateAndRepair f table\<close>: \<open>validateAndRepairXrefEntries\<close> (regular expressions
    over the file): the table with repaired offsets and the number of entries that
    stayed invalid;
  \<^item> \<open>sscanfVersion line\<close>: \<open>fmt.Sscanf(line, "%%PDF-%d.%d", &major, &minor)\<close>, \<open>None\<close>
    on an error;
  \<^item> \<open>zlibInflate b e\<close>, \<open>ascii85Decode b e\<close>: the library decoder on a source that
    delivers the bytes \<open>b\<close> and then ends (\<open>e = None\<close>) or fails with \<open>e\<close>: the bytes the
    decoder delivers and how it ends; for zlib, \<open>Inl\<close> is the error of \<open>zlib.NewReader\<close>
    (a bad header). \<open>ascii85Decode\<close> includes the filter \<open>newAlphaReader\<close>;
  \<^item> \<open>xmlDecode\<close>: \<open>xml.Decoder.Decode\<close> into an \<open>xmpPacket\<close>, \<open>None\<close> on an error;
  \<^item> \<open>isPDFDocEncoded\<close>, \<open>pdfDocDecode\<close>, \<open>utf16Decode\<close>, \<open>decodeUTF8OrPreserve\<close>: the
    text-string helpers, which return a value on every input.
\<close>

record ext =
  readObjectAt :: "bytes \<Rightarrow> 64 word \<Rightarrow> failure + obj"
  objStmLookup :: "bytes \<Rightarrow> obj \<Rightarrow> int \<Rightarrow> 64 word \<Rightarrow> 32 word \<Rightarrow> failure + obj option"
  tokensAt :: "bytes \<Rightarrow> 64 word \<Rightarrow> obj list"
  readXrefStream :: "bytes \<Rightarrow> obj list \<Rightarrow> failure + (xref list \<times> objptr \<times> (string \<times> obj) list)"
  validateAndRepair :: "bytes \<Rightarrow> xref list \<Rightarrow> xref list \<times> nat"
  sscanfVersion :: "bytes \<Rightarrow> (int \<times> int) option"
  zlibInflate :: "bytes \<Rightarrow> failure option \<Rightarrow> failure + (bytes \<times> failure option)"
  ascii85Decode :: "bytes \<Rightarrow> failure option \<Rightarrow> bytes \<times> failure option"
  xmlDecode :: "bytes \<Rightarrow> rdfDescription list option"
  isPDFDocEncoded :: "bytes \<Rightarrow> bool"
  pdfDocDecode :: "bytes \<Rightarrow> bytes"
  utf16Decode :: "bytes \<Rightarrow> bytes"
  decodeUTF8OrPreserve :: "bytes \<Rightarrow> rune list"
  float64FromInt64 :: "64 word \<Rightarrow> float64"

text \<open>
  The value of \<open>fmt.Sscanf(line, "%%PDF-%d.%d", &major, &minor)\<close> on a line that starts with
  \<open>%PDF-\<close> and holds no line end (\<open>CheckHeader\<close> cuts the line at the first \<open>CR\<close> or \<open>LF\<close>):
  before each number \<open>SkipSpace\<close> skips the runes of Unicode white space, decoded from
  UTF-8; a number is an optional sign and the longest run of digits and underscores, which
  must not be empty, must not hold an underscore (base 10) and must fit 64 bits; between
  the numbers stands a dot; what follows the second number is not looked at.
\<close>

definition isDigit :: "byte \<Rightarrow> bool" where
  "isDigit c \<longleftrightarrow> 0x30 \<le> c \<and> c \<le> 0x39"

definition scanInt :: "bytes \<Rightarrow> (int \<times> bytes) option" where
  "scanInt s =
     (let s1 = trimLeftSpace s;
          neg = (s1 \<noteq> [] \<and> hd s1 = 0x2D);
          s2 = (if s1 \<noteq> [] \<and> (hd s1 = 0x2B \<or> hd s1 = 0x2D) then tl s1 else s1);
          tok = takeWhile (\<lambda>c. isDigit c \<or> c = 0x5F) s2;
          v = foldl (\<lambda>a c. 10 * a + (uint c - 48)) 0 tok;
          w = (if neg then - v else v)
      in if tok = [] \<or> 0x5F \<in> set tok \<or> w < - (2 ^ 63) \<or> 2 ^ 63 \<le> w then None
         else Some (w, drop (length tok) s2))"

definition scanVersion :: "bytes \<Rightarrow> (int \<times> int) option" where
  "scanVersion line =
     (case scanInt (drop 5 line) of
        None \<Rightarrow> None
      | Some (major, s1) \<Rightarrow>
         (case s1 of
            [] \<Rightarrow> None
          | c # s2 \<Rightarrow>
             if c \<noteq> 0x2E then None
             else (case scanInt s2 of None \<Rightarrow> None | Some (minor, s3) \<Rightarrow> Some (major, minor))))"

text \<open>
  A library in which no object parses and no decoder succeeds, with the text helpers as
  modelled above: for inputs whose evaluation never reaches the object parser, a stream
  decoder or the XML parser.
\<close>

definition ext0 :: ext where
  "ext0 = \<lparr>readObjectAt = (\<lambda>f off. Inl (Error ''no object'')),
     objStmLookup = (\<lambda>f strm n first i. Inr None),
     tokensAt = (\<lambda>f off. []),
     readXrefStream = (\<lambda>f b. Inl (Error ''malformed PDF: objdef not found'')),
     validateAndRepair = (\<lambda>f table. (table, 0)),
     sscanfVersion = scanVersion,
     zlibInflate = (\<lambda>b e. Inl (Error ''zlib: invalid header'')),
     ascii85Decode = (\<lambda>b e. ([], Some (Error ''illegal ascii85 data''))),
     xmlDecode = (\<lambda>b. None),
     isPDFDocEncoded = (\<lambda>b. False),
     pdfDocDecode = (\<lambda>b. b),
     utf16Decode = utf16DecodeBE,
     decodeUTF8OrPreserve = DecodeUTF8OrPreserve,
     float64FromInt64 = (\<lambda>w. 0)\<rparr>"

subsection \<open>Kinds and the scalar accessors\<close>

datatype ValueKind =
  NullKind | BoolKind | IntegerKind | RealKind | StringKind | NameKind | DictKind
  | ArrayKind | StreamKind

definition Kind :: "Value \<Rightarrow> ValueKind" where
  "Kind v = (case v_data v of
       OBool _ \<Rightarrow> BoolKind
     | OInt _ \<Rightarrow> IntegerKind
     | OReal _ \<Rightarrow> RealKind
     | OString _ \<Rightarrow> StringKind
     | OName _ \<Rightarrow> NameKind
     | ODict _ \<Rightarrow> DictKind
     | OArray _ \<Rightarrow> ArrayKind
     | OStream _ _ _ \<Rightarrow> StreamKind
     | _ \<Rightarrow> NullKind)"

definition IsNull :: "Value \<Rightarrow> bool" where
  "IsNull v \<longleftrightarrow> v_data v = ONull"

definition Bool :: "Value \<Rightarrow> bool" where
  "Bool v = (case v_data v of OBool x \<Rightarrow> x | _ \<Rightarrow> False)"

definition Int64 :: "Value \<Rightarrow> 64 word" where
  "Int64 v = (case v_data v of OInt x \<Rightarrow> x | _ \<Rightarrow> 0)"

definition Float64 :: "ext \<Rightarrow> Value \<Rightarrow> float64" where
  "Float64 E v = (case v_data v of
       OReal x \<Rightarrow> x
     | OInt x \<Rightarrow> float64FromInt64 E x
     | _ \<Rightarrow> 0)"

definition RawString :: "Value \<Rightarrow> bytes" where
  "RawString v = (case v_data v of OString x \<Rightarrow> x | _ \<Rightarrow> [])"

definition Name :: "Value \<Rightarrow> string" where
  "Name v = (case v_data v of OName x \<Rightarrow> x | _ \<Rightarrow> [])"

text \<open>\<open>Keys\<close> returns \<open>nil\<close> (\<open>None\<close>) on a mismatch and a sorted, non-nil slice otherwise.\<close>

definition Keys :: "Value \<Rightarrow> string list option" where
  "Keys v = (case v_data v of
       ODict x \<Rightarrow> Some (sort (remdups (map fst x)))
     | OStream hdr _ _ \<Rightarrow> Some (sort (remdups (map fst hdr)))
     | _ \<Rightarrow> None)"

definition Len :: "Value \<Rightarrow> nat" where
  "Len v = (case v_data v of OArray x \<Rightarrow> length x | _ \<Rightarrow> 0)"

subsection \<open>\<open>resolve\<close>, \<open>Key\<close> and \<open>Index\<close>\<close>

text \<open>
  The \<open>switch\<close> that ends \<open>resolve\<close>: the nine value types are wrapped, anything else
  (an \<open>objptr\<close>, an \<open>objdef\<close>, a keyword) panics.
\<close>

definition wrapValue :: "objptr \<Rightarrow> obj \<Rightarrow> failure + Value" where
  "wrapValue parent x = (case x of
       ORef _ \<Rightarrow> Inl (Panic ''unexpected value type in resolve'')
     | ODef _ _ \<Rightarrow> Inl (Panic ''unexpected value type in resolve'')
     | OKeyword _ \<Rightarrow> Inl (Panic ''unexpected value type in resolve'')
     | _ \<Rightarrow> Inr \<lparr>v_ptr = parent, v_data = x\<rparr>)"

text \<open>
  The uncompressed branch of \<open>resolve\<close>: read an object at \<open>xref.offset\<close>, insist on an
  \<open>objdef\<close> with the requested pointer. The logging of \<open>Pages\<close> and \<open>Page\<close> dictionaries
  has no effect on the result and is left out.
\<close>

definition loadObject :: "ext \<Rightarrow> Reader \<Rightarrow> objptr \<Rightarrow> xref \<Rightarrow> failure + obj" where
  "loadObject E r ptr xr = (case readObjectAt E (r_f r) (x_offset xr) of
       Inl e \<Rightarrow> Inl e
     | Inr (ODef dptr x) \<Rightarrow>
         if dptr \<noteq> ptr then Inl (Panic ''loading: found another pointer'') else Inr x
     | Inr _ \<Rightarrow> Inl (Panic ''loading: found no objdef''))"

text \<open>
  Sequencing of calls that may fail or not return: \<open>None\<close> is the call that does not
  return, \<open>Some (Inl e)\<close> a panic or error, which ends the caller too.
\<close>

definition bindR :: "(failure + 'a) option \<Rightarrow> ('a \<Rightarrow> (failure + 'b) option) \<Rightarrow> (failure + 'b) option" where
  "bindR m k = (case m of None \<Rightarrow> None | Some (Inl e) \<Rightarrow> Some (Inl e) | Some (Inr a) \<Rightarrow> k a)"

lemma bindR_cong [fundef_cong]:
  "m = m' \<Longrightarrow> (\<And>a. m' = Some (Inr a) \<Longrightarrow> k a = k' a) \<Longrightarrow> bindR m k = bindR m' k'"
  by (auto simp: bindR_def split: option.splits sum.splits)

lemma bindR_simps [simp]:
  "bindR None k = None"
  "bindR (Some (Inl e)) k = Some (Inl e)"
  "bindR (Some (Inr a)) k = k a"
  by (simp_all add: bindR_def)

text \<open>
  \<open>resolve\<close> calls itself for the object stream that holds a compressed object, and the
  \<open>Search\<close> loop follows \<open>Extends\<close> from stream to stream; neither needs to end on a
  malformed file. Both take fuel, and \<open>None\<close> is the call that does not return. A call
  that never enters the compressed branch needs no fuel.

  In \<open>objStmSearch\<close> (the loop labelled \<open>Search\<close>) \<open>strm.Key(k)\<close> is inlined: once \<open>strm\<close>
  is known to be a stream it is \<open>resolve\<close> on the header entry (see \<open>Key\<close> below).
\<close>

fun resolve :: "ext \<Rightarrow> nat \<Rightarrow> Reader \<Rightarrow> objptr \<Rightarrow> obj \<Rightarrow> (failure + Value) option"
  and objStmSearch :: "ext \<Rightarrow> nat \<Rightarrow> Reader \<Rightarrow> objptr \<Rightarrow> Value \<Rightarrow> (failure + obj) option"
where
  "resolve E fuel r parent x =
    (case x of
       ORef ptr \<Rightarrow>
         (if p_id ptr \<ge> of_nat (length (r_xref r)) then Some (Inr Value0)
          else (let xr = r_xref r ! unat (p_id ptr) in
            if x_ptr xr \<noteq> ptr \<or> (\<not> x_inStream xr \<and> x_offset xr = 0) then Some (Inr Value0)
            else if x_inStream xr then
              (case fuel of
                 0 \<Rightarrow> None
               | Suc k \<Rightarrow>
                   bindR (resolve E k r parent (ORef (x_stream xr))) (\<lambda>strm.
                   bindR (objStmSearch E k r ptr strm) (\<lambda>x'.
                   Some (wrapValue ptr x'))))
            else (case loadObject E r ptr xr of
                    Inl e \<Rightarrow> Some (Inl e)
                  | Inr x' \<Rightarrow> Some (wrapValue ptr x'))))
     | _ \<Rightarrow> Some (wrapValue parent x))"
| "objStmSearch E fuel r ptr strm =
    (case v_data strm of
       OStream hdr sptr soff \<Rightarrow>
         (case fuel of
            0 \<Rightarrow> None
          | Suc k \<Rightarrow>
              bindR (resolve E k r (v_ptr strm) (dict_get hdr ''Type'')) (\<lambda>typ.
              if (case v_data typ of OName n \<Rightarrow> n | _ \<Rightarrow> []) \<noteq> ''ObjStm''
              then Some (Inl (Panic ''not an object stream''))
              else
                bindR (resolve E k r (v_ptr strm) (dict_get hdr ''N'')) (\<lambda>nv.
                bindR (resolve E k r (v_ptr strm) (dict_get hdr ''First'')) (\<lambda>fv.
                let n = sint (case v_data nv of OInt i \<Rightarrow> i | _ \<Rightarrow> 0);
                    first = (case v_data fv of OInt i \<Rightarrow> i | _ \<Rightarrow> 0)
                in if first = 0 then Some (Inl (Panic ''missing First''))
                   else (case objStmLookup E (r_f r) (v_data strm) n first (p_id ptr) of
                           Inl e \<Rightarrow> Some (Inl e)
                         | Inr (Some x') \<Rightarrow> Some (Inr x')
                         | Inr None \<Rightarrow>
                             bindR (resolve E k r (v_ptr strm) (dict_get hdr ''Extends'')) (\<lambda>ext.
                             (case v_data ext of
                                OStream h p off \<Rightarrow> objStmSearch E k r ptr ext
                              | _ \<Rightarrow> Some (Inl (Panic ''cannot find object in stream'')))))))))
     | _ \<Rightarrow> Some (Inl (Panic ''not a stream'')))"

declare resolve.simps [simp del] objStmSearch.simps [simp del]

text \<open>
  \<open>Key\<close>: on a dictionary, or on a stream's header, the entry resolved; a null
  \<open>Value\<close> on any other kind.
\<close>

definition Key :: "ext \<Rightarrow> nat \<Rightarrow> Reader \<Rightarrow> Value \<Rightarrow> string \<Rightarrow> (failure + Value) option" where
  "Key E fuel r v key = (case v_data v of
       ODict x \<Rightarrow> resolve E fuel r (v_ptr v) (dict_get x key)
     | OStream hdr _ _ \<Rightarrow> resolve E fuel r (v_ptr v) (dict_get hdr key)
     | _ \<Rightarrow> Some (Inr Value0))"

text \<open>
  \<open>Index\<close>: \<open>i\<close> is a Go \<open>int\<close>; outside \<open>0 \<le> i < len(x)\<close>, or on another kind, the
  result is the null \<open>Value\<close>.
\<close>

definition Index :: "ext \<Rightarrow> nat \<Rightarrow> Reader \<Rightarrow> Value \<Rightarrow> int \<Rightarrow> (failure + Value) option" where
  "Index E fuel r v i = (case v_data v of
       OArray x \<Rightarrow>
         if i < 0 \<or> i \<ge> int (length x) then Some (Inr Value0)
         else resolve E fuel r (v_ptr v) (x ! nat i)
     | _ \<Rightarrow> Some (Inr Value0))"

definition Trailer :: "Reader \<Rightarrow> Value" where
  "Trailer r = \<lparr>v_ptr = r_trailerptr r, v_data = ODict (r_trailer r)\<rparr>"

section \<open>Access permissions\<close>

record accessPerm =
  canPrint :: bool
  canModify :: bool
  extractContent :: bool
  modifyAnnotations :: bool
  fillInForm :: bool
  extractAccessibility :: bool
  assembleDocument :: bool
  canPrintFaithful :: bool

text \<open>\<open>uint32(enc.Key("P").Int64())\<close> keeps the low 32 bits of the integer.\<close>

definition permsOfP :: "32 word \<Rightarrow> accessPerm" where
  "permsOfP p =
     (let print = (p AND push_bit 2 1 \<noteq> 0);
          annot = (p AND push_bit 5 1 \<noteq> 0)
      in \<lparr>canPrint = print,
          canModify = (p AND push_bit 3 1 \<noteq> 0),
          extractContent = (p AND push_bit 4 1 \<noteq> 0),
          modifyAnnotations = annot,
          fillInForm = (p AND push_bit 8 1 \<noteq> 0 \<or> annot),
          extractAccessibility = (p AND push_bit 9 1 \<noteq> 0),
          assembleDocument = (p AND push_bit 10 1 \<noteq> 0),
          canPrintFaithful = (p AND push_bit 11 1 \<noteq> 0 \<or> print)\<rparr>)"

definition allAllowed :: accessPerm where
  "allAllowed = \<lparr>canPrint = True, canModify = True, extractContent = True,
     modifyAnnotations = True, fillInForm = True, extractAccessibility = True,
     assembleDocument = True, canPrintFaithful = True\<rparr>"

definition accessPermissions :: "ext \<Rightarrow> nat \<Rightarrow> Reader \<Rightarrow> (failure + accessPerm) option" where
  "accessPermissions E fuel r =
     bindR (Key E fuel r (Trailer r) ''Encrypt'') (\<lambda>enc.
       if Kind enc = NullKind then Some (Inr allAllowed)
       else bindR (Key E fuel r enc ''P'') (\<lambda>pv.
         Some (Inr (permsOfP (ucast (Int64 pv))))))"

section \<open>Text strings\<close>

text \<open>
  Modelled from the spec: \<open>isUTF16\<close> is not in the sources at hand. Section 4.4: a text
  string is UTF-16BE "if the first two bytes are \<open>0xFE 0xFF\<close>"; \<open>TestIsUTF16\<close> adds that
  a string of odd length is not.
\<close>

definition isUTF16 :: "bytes \<Rightarrow> bool" where
  "isUTF16 s \<longleftrightarrow> 2 \<le> length s \<and> s ! 0 = 0xFE \<and> s ! 1 = 0xFF \<and> even (length s)"

text \<open>\<open>Text\<close> slices \<open>x[2:]\<close>, which panics on a string shorter than two bytes.\<close>

definition Text :: "ext \<Rightarrow> Value \<Rightarrow> failure + bytes" where
  "Text E v = (case v_data v of
       OString x \<Rightarrow>
         if isPDFDocEncoded E x then Inr (pdfDocDecode E x)
         else if isUTF16 x then
           (if length x < 2 then Inl (Panic ''slice bounds out of range'')
            else Inr (utf16Decode E (drop 2 x)))
         else Inr x
     | _ \<Rightarrow> Inr [])"

text \<open>The nine types a \<open>Value\<close> can hold: what \<open>resolve\<close> wraps without a panic.\<close>

definition isValueObj :: "obj \<Rightarrow> bool" where
  "isValueObj x = (case x of ORef _ \<Rightarrow> False | ODef _ _ \<Rightarrow> False | OKeyword _ \<Rightarrow> False | _ \<Rightarrow> True)"

text \<open>
  A reference that \<open>resolve\<close> answers with the null value without reading the file: the
  object number is outside the table, the slot holds another pointer, or the slot is
  neither compressed nor has an offset.
\<close>

definition unresolvable :: "Reader \<Rightarrow> objptr \<Rightarrow> bool" where
  "unresolvable r ptr \<longleftrightarrow>
     (if p_id ptr \<ge> of_nat (length (r_xref r)) then True
      else (let xr = r_xref r ! unat (p_id ptr) in
            x_ptr xr \<noteq> ptr \<or> (\<not> x_inStream xr \<and> x_offset xr = 0)))"

section \<open>The filter pipeline\<close>

subsection \<open>\<open>pngUpReader\<close>\<close>

text \<open>
  \<open>pngUpReader{r, hist, tmp, pend}\<close>. The underlying reader \<open>r\<close> is a source that
  delivers the bytes \<open>pr_src\<close> and then ends with \<open>io.EOF\<close> (\<open>pr_end = None\<close>) or with an
  error. \<open>tmp\<close> is scratch space of which only the length matters between calls.
\<close>

record pngUpReader =
  pr_src :: bytes
  pr_end :: "failure option"
  pr_hist :: bytes
  pr_tmp :: bytes
  pr_pend :: bytes

definition EOF :: failure where
  "EOF = Error ''EOF''"

definition ErrUnexpectedEOF :: failure where
  "ErrUnexpectedEOF = Error ''unexpected EOF''"

text \<open>
  \<open>io.ReadFull(src, buf)\<close> for a buffer of length \<open>n\<close>: the bytes read, the error, and the
  source that is left. With fewer than \<open>n\<close> bytes left the error is the source's own, or
  \<open>io.EOF\<close> when nothing was read and \<open>io.ErrUnexpectedEOF\<close> when something was.
\<close>

definition ReadFull :: "bytes \<Rightarrow> failure option \<Rightarrow> nat \<Rightarrow> bytes \<times> failure option \<times> bytes" where
  "ReadFull src end' n =
     (if n \<le> length src then (take n src, None, drop n src)
      else (src, Some (case end' of Some e \<Rightarrow> e
                        | None \<Rightarrow> if src = [] then EOF else ErrUnexpectedEOF), []))"

text \<open>\<open>for i, b := range r.tmp { r.hist[i] += b }\<close>, for \<open>len(hist) \<ge> len(tmp)\<close>.\<close>

fun addInto :: "bytes \<Rightarrow> bytes \<Rightarrow> bytes" where
  "addInto (h # hist) (t # tmp) = (h + t) # addInto hist tmp"
| "addInto hist [] = hist"
| "addInto [] tmp = []"

text \<open>
  \<open>Read(b)\<close> for a buffer of \<open>k\<close> bytes: the loop \<open>for len(b) > 0\<close>, with the bytes
  written so far in \<open>out\<close>. The result is the bytes written (\<open>n\<close> is their number), the
  error returned, and the reader's new state. An index outside \<open>tmp\<close> or \<open>hist\<close> panics;
  the panic is reported in the place of the error.
\<close>

function pngUpRead :: "pngUpReader \<Rightarrow> nat \<Rightarrow> bytes \<Rightarrow> bytes \<times> failure option \<times> pngUpReader" where
  "pngUpRead r k out =
     (if k = 0 then (out, None, r)
      else if pr_pend r \<noteq> [] then
        (let m = min k (length (pr_pend r)) in
         pngUpRead (r\<lparr>pr_pend := drop m (pr_pend r)\<rparr>) (k - m) (out @ take m (pr_pend r)))
      else (case ReadFull (pr_src r) (pr_end r) (length (pr_tmp r)) of
        (tmp, Some e, src') \<Rightarrow> (out, Some e, r\<lparr>pr_src := src'\<rparr>)
      | (tmp, None, src') \<Rightarrow>
          if tmp = [] then (out, Some (Panic ''index out of range''), r\<lparr>pr_src := src'\<rparr>)
          else if hd tmp \<noteq> 2 then
            (out, Some (Error ''malformed PNG-Up encoding''), r\<lparr>pr_src := src', pr_tmp := tmp\<rparr>)
          else if length (pr_hist r) < length tmp then
            (out, Some (Panic ''index out of range''), r\<lparr>pr_src := src', pr_tmp := tmp\<rparr>)
          else (let hist = addInto (pr_hist r) tmp in
            pngUpRead (r\<lparr>pr_src := src', pr_tmp := tmp, pr_hist := hist, pr_pend := tl hist\<rparr>)
              k out)))"
  by pat_completeness auto
termination
  apply (relation "measure (\<lambda>(r, k, out). length (pr_src r) + k)")
    apply simp
   apply (case_tac "pr_pend r"; simp)
  apply (auto simp add: ReadFull_def split: if_splits)
  done

declare pngUpRead.simps [simp del]

text \<open>
  Every call of \<open>Read\<close> that returns no error fills its buffer and uses up as much of
  what the reader can still deliver.
\<close>

definition pngUpPotential :: "pngUpReader \<Rightarrow> nat" where
  "pngUpPotential r = length (pr_pend r) + length (pr_hist r) * length (pr_src r)"

lemma addInto_length: "length (addInto h t) = length h"
  by (induction h t rule: addInto.induct) auto

lemma pngUpRead_progress:
  "pngUpRead r k out = (out', None, r') \<Longrightarrow>
     length out' = length out + k \<and> pngUpPotential r' + k \<le> pngUpPotential r \<and>
     pr_end r' = pr_end r"
proof (induction r k out rule: pngUpRead.induct)
  case (1 r k out)
  show ?case
  proof (cases "k = 0")
    case True
    with "1.prems" show ?thesis by (simp add: pngUpRead.simps)
  next
    case k: False
    show ?thesis
    proof (cases "pr_pend r = []")
      case False
      define m where "m = min k (length (pr_pend r))"
      from "1.prems" k False
      have e: "pngUpRead (r\<lparr>pr_pend := drop m (pr_pend r)\<rparr>) (k - m) (out @ take m (pr_pend r))
          = (out', None, r')"
        by (subst (asm) pngUpRead.simps) (simp add: m_def Let_def)
      from "1.IH"(1)[OF k False m_def e] show ?thesis
        by (auto simp add: pngUpPotential_def m_def min_def split: if_splits)
    next
      case True
      obtain tmp e src' where
        rf: "ReadFull (pr_src r) (pr_end r) (length (pr_tmp r)) = (tmp, e, src')"
        by (cases "ReadFull (pr_src r) (pr_end r) (length (pr_tmp r))") auto
      from "1.prems" k True rf
      have en: "e = None" and tn: "tmp \<noteq> []" and h2: "hd tmp = 2"
        and hl: "\<not> length (pr_hist r) < length tmp"
        by (subst (asm) pngUpRead.simps; auto split: option.splits if_splits)+
      define hist where "hist = addInto (pr_hist r) tmp"
      from "1.prems" k True rf en tn h2 hl
      have e2: "pngUpRead (r\<lparr>pr_src := src', pr_tmp := tmp, pr_hist := hist, pr_pend := tl hist\<rparr>)
          k out = (out', None, r')"
        by (subst (asm) pngUpRead.simps) (simp add: hist_def Let_def)
      have ih: "length out' = length out + k \<and>
          pngUpPotential r' + k
            \<le> pngUpPotential (r\<lparr>pr_src := src', pr_tmp := tmp, pr_hist := hist, pr_pend := tl hist\<rparr>)
          \<and> pr_end r' = pr_end r"
      proof -
        have np: "\<not> pr_pend r \<noteq> []" using True by simp
        have nh: "\<not> hd tmp \<noteq> 2" using h2 by simp
        show ?thesis
          using "1.IH"(2)[OF k np rf[symmetric] refl en tn nh hl hist_def e2] by simp
      qed
      from rf en have l: "length (pr_tmp r) \<le> length (pr_src r)"
        "src' = drop (length (pr_tmp r)) (pr_src r)" "tmp = take (length (pr_tmp r)) (pr_src r)"
        by (auto simp add: ReadFull_def split: if_splits)
      with tn have "length src' < length (pr_src r)" by (cases "pr_tmp r") auto
      then have "Suc (length src') \<le> length (pr_src r)" by simp
      then have "length (pr_hist r) * Suc (length src') \<le> length (pr_hist r) * length (pr_src r)"
        by (rule mult_le_mono2)
      moreover have "length hist = length (pr_hist r)" by (simp add: hist_def addInto_length)
      ultimately have "pngUpPotential (r\<lparr>pr_src := src', pr_tmp := tmp, pr_hist := hist,
          pr_pend := tl hist\<rparr>) \<le> pngUpPotential r"
        using True by (simp add: pngUpPotential_def)
      with ih show ?thesis by simp
    qed
  qed
qed

text \<open>
  Reading to exhaustion, as \<open>io.ReadAll\<close> and \<open>io.Copy\<close> do: \<open>Read\<close> is called with
  non-empty buffers until it returns an error; \<open>io.EOF\<close> is the regular end. The size of
  the \<open>j\<close>-th buffer is \<open>Suc (sz j)\<close>, for any \<open>sz\<close>. The result is the bytes read and
  the error that ended the reading, \<open>None\<close> for \<open>io.EOF\<close>.
\<close>

function drain :: "(nat \<Rightarrow> nat) \<Rightarrow> nat \<Rightarrow> pngUpReader \<Rightarrow> bytes \<times> failure option" where
  "drain sz j r =
     (case pngUpRead r (Suc (sz j)) [] of
        (out, Some e, r') \<Rightarrow> (out, if e = EOF then None else Some e)
      | (out, None, r') \<Rightarrow> (case drain sz (Suc j) r' of (rest, e) \<Rightarrow> (out @ rest, e)))"
  by pat_completeness auto
termination
  apply (relation "measure (\<lambda>(sz, j, r). pngUpPotential r)")
   apply simp
  apply (auto dest!: sym [of "(_, _)" "pngUpRead _ _ _"] dest: pngUpRead_progress)
  done

declare drain.simps [simp del]

subsection \<open>\<open>Reader\<close> and \<open>applyFilter\<close>\<close>

text \<open>
  An \<open>io.Reader\<close> of the pipeline is either a source that delivers given bytes and then ends
  with \<open>io.EOF\<close> (\<open>None\<close>) or an error (a section of the file, the output of a library
  decoder, the \<open>errorReadCloser\<close>), or a \<open>pngUpReader\<close>.
\<close>

datatype rdr = RdData bytes "failure option" | RdPngUp pngUpReader

text \<open>What a library decoder reads from the reader under it.\<close>

definition rdrAll :: "rdr \<Rightarrow> bytes \<times> failure option" where
  "rdrAll rd = (case rd of RdData b e \<Rightarrow> (b, e) | RdPngUp r \<Rightarrow> drain (\<lambda>j. 4095) 0 r)"

text \<open>
  \<open>io.NewSectionReader(f, off, n)\<close>, with \<open>off\<close> and \<open>n\<close> of type \<open>int64\<close>. The section ends at
  \<open>limit = off + n\<close> if \<open>off <= maxint64 - n\<close>, and at \<open>maxint64\<close> otherwise. Both sums wrap
  around: for a negative \<open>n\<close> the difference \<open>maxint64 - n\<close> overflows, so that from every
  \<open>off \<ge> 0\<close> a negative length reads to the end of the file. \<open>Read\<close> ends with \<open>io.EOF\<close> as
  soon as the position reaches \<open>limit\<close> and otherwise reads the file at the position:
  the source fails at a negative offset and ends where the file ends.
\<close>

definition sectionReader :: "bytes \<Rightarrow> int \<Rightarrow> int \<Rightarrow> rdr" where
  "sectionReader f off n =
     (let maxint64 = 2 ^ 63 - 1;
          limit = (if off \<le> signed_take_bit 63 (maxint64 - n)
                   then signed_take_bit 63 (n + off) else maxint64)
      in if limit \<le> off then RdData [] None
         else if off < 0 then RdData [] (Some (Error ''negative offset''))
         else RdData (take (nat (limit - off)) (drop (nat off) f)) None)"

text \<open>
  \<open>applyFilter(rd, name, param)\<close>. \<open>make([]byte, 1+columns)\<close> panics on a negative
  length; \<open>1+columns\<close> is computed in \<open>int64\<close>.
\<close>

definition applyFilter :: "ext \<Rightarrow> nat \<Rightarrow> Reader \<Rightarrow> rdr \<Rightarrow> string \<Rightarrow> Value \<Rightarrow> (failure + rdr) option" where
  "applyFilter E fuel r rd name param =
     (if name = ''FlateDecode'' then
        (case zlibInflate E (fst (rdrAll rd)) (snd (rdrAll rd)) of
           Inl e \<Rightarrow> Some (Inl (Panic ''zlib: invalid header''))
         | Inr (payload, end') \<Rightarrow>
             bindR (Key E fuel r param ''Predictor'') (\<lambda>pred.
             if Kind pred = NullKind then Some (Inr (RdData payload end'))
             else bindR (Key E fuel r param ''Columns'') (\<lambda>cv.
               let columns = Int64 cv in
               if Int64 pred = 12 then
                 (if sint (1 + columns) < 0 then Some (Inl (Panic ''makeslice: len out of range''))
                  else Some (Inr (RdPngUp \<lparr>pr_src = payload, pr_end = end',
                     pr_hist = replicate (nat (sint (1 + columns))) 0,
                     pr_tmp = replicate (nat (sint (1 + columns))) 0,
                     pr_pend = []\<rparr>)))
               else Some (Inl (Panic ''pred'')))))
      else if name = ''ASCII85Decode'' then
        (case Keys param of
           None \<Rightarrow> (case ascii85Decode E (fst (rdrAll rd)) (snd (rdrAll rd)) of
                      (out, end') \<Rightarrow> Some (Inr (RdData out end')))
         | Some ks \<Rightarrow> Some (Inl (Panic ''not expected DecodeParms for ascii85'')))
      else Some (Inl (Panic ''unknown filter'')))"

text \<open>
  The loop of \<open>Reader\<close> over an array of filters:
  \<open>for i := 0; i < filter.Len(); i++ { rd = applyFilter(rd, filter.Index(i).Name(), param.Index(i)) }\<close>,
  with \<open>n\<close> the number of rounds left.
\<close>

fun filterLoop :: "ext \<Rightarrow> nat \<Rightarrow> Reader \<Rightarrow> Value \<Rightarrow> Value \<Rightarrow> nat \<Rightarrow> nat \<Rightarrow> rdr \<Rightarrow> (failure + rdr) option" where
  "filterLoop E fuel r flt param i 0 rd = Some (Inr rd)"
| "filterLoop E fuel r flt param i (Suc n) rd =
     bindR (Index E fuel r flt (int i)) (\<lambda>fi.
     bindR (Index E fuel r param (int i)) (\<lambda>pi.
     bindR (applyFilter E fuel r rd (Name fi) pi) (\<lambda>rd'.
     filterLoop E fuel r flt param (Suc i) n rd')))"

text \<open>\<open>Value.Reader\<close>: the stream's bytes behind the filters of its header.\<close>

definition Reader :: "ext \<Rightarrow> nat \<Rightarrow> Reader \<Rightarrow> Value \<Rightarrow> (failure + rdr) option" where
  "Reader E fuel r v = (case v_data v of
       OStream hdr sptr off \<Rightarrow>
         bindR (Key E fuel r v ''Length'') (\<lambda>len.
         bindR (Key E fuel r v ''Filter'') (\<lambda>flt.
         bindR (Key E fuel r v ''DecodeParms'') (\<lambda>param.
         let rd = sectionReader (r_f r) (sint off) (sint (Int64 len)) in
         (case Kind flt of
            NullKind \<Rightarrow> Some (Inr rd)
          | NameKind \<Rightarrow> applyFilter E fuel r rd (Name flt) param
          | ArrayKind \<Rightarrow> filterLoop E fuel r flt param 0 (Len flt) rd
          | _ \<Rightarrow> Some (Inl (Panic ''unsupported filter''))))))
     | _ \<Rightarrow> Some (Inr (RdData [] (Some (Error ''stream not present'')))))"

subsection \<open>PNG-Up prediction, as the specification words it\<close>

text \<open>
  The payload is framed in records of \<open>1 + Columns\<close> bytes whose first byte is \<open>2\<close>;
  each remaining byte is added modulo 256 to the same position of the running history,
  and the history is the output of the record.
\<close>

definition encodeRows :: "bytes list \<Rightarrow> bytes" where
  "encodeRows rows = concat (map (\<lambda>row. 2 # row) rows)"

fun pngUpExpected :: "bytes \<Rightarrow> bytes list \<Rightarrow> bytes" where
  "pngUpExpected h [] = []"
| "pngUpExpected h (row # rows) = map2 (+) h row @ pngUpExpected (map2 (+) h row) rows"

text \<open>
  The state of a \<open>pngUpReader\<close> made by \<open>applyFilter\<close> for \<open>Columns = c\<close>, with the records
  \<open>rows\<close> still to come, and what it will still deliver.
\<close>

definition pngInv :: "nat \<Rightarrow> pngUpReader \<Rightarrow> bytes list \<Rightarrow> bool" where
  "pngInv c r rows \<longleftrightarrow>
     pr_end r = None \<and> length (pr_hist r) = Suc c \<and> length (pr_tmp r) = Suc c \<and>
     pr_src r = encodeRows rows \<and> list_all (\<lambda>row. length row = c) rows"

definition pngRemaining :: "pngUpReader \<Rightarrow> bytes list \<Rightarrow> bytes" where
  "pngRemaining r rows = pr_pend r @ pngUpExpected (tl (pr_hist r)) rows"

text \<open>A library whose zlib decoder delivers one given payload.\<close>

definition ext_inflate :: "bytes \<Rightarrow> ext" where
  "ext_inflate payload = ext0\<lparr>zlibInflate := (\<lambda>b e. Inr (payload, None))\<rparr>"

section \<open>The classic cross-reference table\<close>

text \<open>
  Modelled from the spec: the lexer (\<open>newBuffer\<close>, \<open>readToken\<close>, \<open>readObject\<close>) is not in
  the sources at hand. A buffer is the sequence of tokens and objects that the lexer
  delivers from its position (section 4.1 and 4.2); without \<open>allowEOF\<close> the end of the
  input is a failure. \<open>readObject\<close> takes one whole object, \<open>readToken\<close> one token (an
  object that is not a single token makes every caller below fail, as its opening
  delimiter would).
\<close>

type_synonym buffer = "obj list"

definition readToken :: "buffer \<Rightarrow> failure + (obj \<times> buffer)" where
  "readToken b = (case b of [] \<Rightarrow> Inl (Error ''end of input'') | t # ts \<Rightarrow> Inr (t, ts))"

definition readObject :: "buffer \<Rightarrow> failure + (obj \<times> buffer)" where
  "readObject b = (case b of [] \<Rightarrow> Inl (Error ''end of input'') | t # ts \<Rightarrow> Inr (t, ts))"

text \<open>
  \<open>ensureLen(s, n)\<close>: \<open>s\<close> itself when \<open>n \<le> len(s)\<close>, otherwise \<open>s\<close> followed by zero
  slots up to length \<open>n\<close>. A table is a list: the capacity of the Go slice is not part of
  it. Where \<open>len(s) < n \<le> cap(s)\<close> the source returns \<open>s[:n]\<close>, whose new slots are what the
  backing array holds. On the classic-table path this case does not arise: the table is
  \<open>nil\<close> or comes from \<open>make\<close> with exactly its length (here and in \<open>mergeXrefTables\<close>), and
  it is cut only in the last step, \<open>validateTrailerSize\<close>; so \<open>len(s) = cap(s)\<close> whenever
  \<open>ensureLen\<close> is called.
\<close>

definition ensureLen :: "xref list \<Rightarrow> int \<Rightarrow> xref list" where
  "ensureLen s n =
     (if n \<le> int (length s) then s else s @ replicate (nat n - length s) xref0)"

text \<open>
  \<open>setIfEmpty(&table, x, val)\<close>, with \<open>x\<close> a 64-bit \<open>int\<close>. \<open>x+1\<close> wraps around at the
  largest \<open>int\<close>, and then \<open>(*table)[x]\<close> is outside the table and panics.
\<close>

definition setIfEmpty :: "xref list \<Rightarrow> 64 word \<Rightarrow> xref \<Rightarrow> failure + xref list" where
  "setIfEmpty table x val =
     (if sint x < 0 then Inr table
      else (let t = ensureLen table (sint (x + 1)) in
        if nat (sint x) < length t then
          (if x_ptr (t ! nat (sint x)) = objptr0 then Inr (t[nat (sint x) := val]) else Inr t)
        else Inl (Panic ''index out of range'')))"

text \<open>
  The inner loop of \<open>readXrefTableData\<close>: \<open>for i := 0; i < int(count); i++\<close>, with \<open>n\<close>
  the number of entries left to read. Three tokens are read for each entry, then checked.
\<close>

fun readXrefEntries :: "64 word \<Rightarrow> nat \<Rightarrow> nat \<Rightarrow> buffer \<Rightarrow> xref list \<Rightarrow> failure + (xref list \<times> buffer)" where
  "readXrefEntries start i 0 b table = Inr (table, b)"
| "readXrefEntries start i (Suc n) b table =
     (case readToken b of
        Inl e \<Rightarrow> Inl e
      | Inr (offTok, b1) \<Rightarrow>
         (case readToken b1 of
            Inl e \<Rightarrow> Inl e
          | Inr (genTok, b2) \<Rightarrow>
             (case readToken b2 of
                Inl e \<Rightarrow> Inl e
              | Inr (allocTok, b3) \<Rightarrow>
                 (case (offTok, genTok, allocTok) of
                    (OInt off, OInt gen, OKeyword alloc) \<Rightarrow>
                      (let idx = start + of_nat i in
                       if alloc = ''n'' then
                         (case setIfEmpty table idx
                                 \<lparr>x_ptr = \<lparr>p_id = ucast idx, p_gen = ucast gen\<rparr>,
                                   x_inStream = False, x_stream = objptr0, x_offset = off\<rparr> of
                            Inl e \<Rightarrow> Inl e
                          | Inr table' \<Rightarrow> readXrefEntries start (Suc i) n b3 table')
                       else if alloc = ''f'' then
                         readXrefEntries start (Suc i) n b3 (ensureLen table (sint (idx + 1)))
                       else Inl (Error ''malformed xref table: unexpected alloc token''))
                  | _ \<Rightarrow> Inl (Error ''malformed xref entry'')))))"

lemma readXrefEntries_buffer:
  "readXrefEntries start i n b table = Inr (table', b') \<Longrightarrow> length b' \<le> length b"
proof (induction n arbitrary: i b table)
  case 0
  then show ?case by simp
next
  case (Suc n)
  from Suc.prems show ?case
    by (auto simp add: readToken_def Let_def
        split: list.splits sum.splits obj.splits if_splits dest!: Suc.IH)
qed

text \<open>
  \<open>readXrefTableData(b, table)\<close>: subsections \<open>start count\<close> and their entries, up to the
  keyword \<open>trailer\<close>. The second token of a header is read before the first is checked.
\<close>

function readXrefTableData :: "buffer \<Rightarrow> xref list \<Rightarrow> failure + (xref list \<times> buffer)" where
  "readXrefTableData b table =
     (case readToken b of
        Inl e \<Rightarrow> Inl e
      | Inr (tok, b1) \<Rightarrow>
         if tok = OKeyword ''trailer'' then Inr (table, b1)
         else (case readToken b1 of
                 Inl e \<Rightarrow> Inl e
               | Inr (countTok, b2) \<Rightarrow>
                  (case (tok, countTok) of
                     (OInt start, OInt count) \<Rightarrow>
                       if sint start < 0 \<or> sint count < 0
                       then Inl (Error ''malformed xref table subsection header'')
                       else (case readXrefEntries start 0 (nat (sint count)) b2 table of
                               Inl e \<Rightarrow> Inl e
                             | Inr (table', b3) \<Rightarrow> readXrefTableData b3 table')
                   | _ \<Rightarrow> Inl (Error ''malformed xref table subsection header''))))"
  by pat_completeness auto
termination
  apply (relation "measure (\<lambda>(b, table). length b)")
   apply simp
  apply (auto simp add: readToken_def split: list.splits
      dest!: sym [of "Inr _" "readXrefEntries _ _ _ _ _"] dest!: readXrefEntries_buffer)
  done

declare readXrefTableData.simps [simp del]

text \<open>\<open>parseXrefTableAndTrailer\<close>: one table section and the trailer dictionary after it.\<close>

definition parseXrefTableAndTrailer :: "buffer \<Rightarrow> xref list \<Rightarrow> failure + (xref list \<times> dict \<times> buffer)" where
  "parseXrefTableAndTrailer b table =
     (case readXrefTableData b table of
        Inl (Panic m) \<Rightarrow> Inl (Panic m)
      | Inl (Error m) \<Rightarrow> Inl (Error ''malformed PDF'')
      | Inr (table', b1) \<Rightarrow>
         (case readObject b1 of
            Inl e \<Rightarrow> Inl e
          | Inr (ODict trailer, b2) \<Rightarrow> Inr (table', trailer, b2)
          | Inr _ \<Rightarrow> Inl (Error ''malformed PDF: xref table not followed by trailer dictionary'')))"

text \<open>
  \<open>mergeXrefTables(dest, src)\<close>: \<open>dest\<close> is extended to the length of \<open>src\<close>; an empty
  slot of \<open>src\<close> changes nothing; an empty slot of \<open>dest\<close> takes the source; where
  neither is the free sentinel (generation 65535) the source wins.
\<close>

definition mergeSlot :: "xref list \<Rightarrow> xref list \<Rightarrow> nat \<Rightarrow> xref list" where
  "mergeSlot src dest i =
     (let s = src ! i; d = dest ! i in
      if x_ptr s = objptr0 then dest
      else if x_ptr d = objptr0 then dest[i := s]
      else if p_gen (x_ptr d) \<noteq> 65535 \<and> p_gen (x_ptr s) \<noteq> 65535 then dest[i := s]
      else dest)"

definition mergeXrefTables :: "xref list \<Rightarrow> xref list \<Rightarrow> xref list" where
  "mergeXrefTables dest src =
     foldl (mergeSlot src)
       (if length src > length dest then dest @ replicate (length src - length dest) xref0
        else dest)
       [0 ..< length src]"

text \<open>
  \<open>handleTrailerXRefStm\<close> returns a table and the trailer in every case, with or without
  an error; its callers go on with what it returns. The threshold
  \<open>float64(invalid)/float64(total) > 0.30\<close> is compared in integers.
\<close>

definition handleTrailerXRefStm :: "ext \<Rightarrow> Reader \<Rightarrow> xref list \<Rightarrow> dict \<Rightarrow> failure + (xref list \<times> dict \<times> failure option)" where
  "handleTrailerXRefStm E r table trailer =
     (case dict_get trailer ''XRefStm'' of
        ONull \<Rightarrow> Inr (table, trailer, None)
      | OInt off \<Rightarrow>
         (case readXrefStream E (r_f r) (tokensAt E (r_f r) off) of
            Inl (Panic m) \<Rightarrow> Inl (Panic m)
          | Inl (Error m) \<Rightarrow> Inr (table, trailer, Some (Error ''failed to parse XRefStm''))
          | Inr (srcTable0, sptr, hdr) \<Rightarrow>
             (let srcTable = fst (validateAndRepair E (r_f r) srcTable0);
                  invalid = snd (validateAndRepair E (r_f r) srcTable0);
                  total = length (filter (\<lambda>e. x_ptr e \<noteq> objptr0) srcTable)
              in if total > 0 \<and> 10 * invalid > 3 * total
                 then Inr (table, trailer, Some (Error ''xref stream appears invalid''))
                 else if map_of hdr ''Size'' = None
                 then Inr (mergeXrefTables table srcTable, trailer, Some (Error ''missing Size''))
                 else Inr (mergeXrefTables table srcTable, trailer, None)))
      | _ \<Rightarrow> Inr (table, trailer, Some (Error ''malformed PDF: XRefStm not integer'')))"

text \<open>
  \<open>resolvePrevXrefTables\<close>: the loop \<open>for prevoff := trailer["Prev"]; prevoff != nil;\<close>.
  Each round parses the section at \<open>prevoff\<close> into the same table and replaces
  \<open>trailer\<close> by that section's trailer. A chain of \<open>Prev\<close> entries that runs in a circle
  never ends: the result \<open>None\<close>.
\<close>

partial_function (option) prevLoop :: "ext \<Rightarrow> Reader \<Rightarrow> obj \<Rightarrow> dict \<Rightarrow> xref list \<Rightarrow> (failure + (xref list \<times> dict)) option" where
  "prevLoop E r prevoff trailer table =
     (case prevoff of
        ONull \<Rightarrow> Some (Inr (table, trailer))
      | OInt off \<Rightarrow>
         (case readToken (tokensAt E (r_f r) off) of
            Inl e \<Rightarrow> Some (Inl e)
          | Inr (tok, b) \<Rightarrow>
             if tok \<noteq> OKeyword ''xref''
             then Some (Inl (Error ''malformed PDF: xref Prev does not point to xref''))
             else (case parseXrefTableAndTrailer b table of
                Inl (Panic m) \<Rightarrow> Some (Inl (Panic m))
              | Inl (Error m) \<Rightarrow> Some (Inl (Error ''malformed PDF''))
              | Inr (table1, trailer1, b1) \<Rightarrow>
                 (case handleTrailerXRefStm E r table1 trailer1 of
                    Inl e \<Rightarrow> Some (Inl e)
                  | Inr (table2, trailer2, err) \<Rightarrow>
                     prevLoop E r (dict_get trailer2 ''Prev'') trailer2 table2)))
      | _ \<Rightarrow> Some (Inl (Error ''malformed PDF: xref Prev is not integer'')))"

declare prevLoop.simps [code]

definition resolvePrevXrefTables :: "ext \<Rightarrow> Reader \<Rightarrow> dict \<Rightarrow> xref list \<Rightarrow> (failure + (xref list \<times> dict)) option" where
  "resolvePrevXrefTables E r trailer table = prevLoop E r (dict_get trailer ''Prev'') trailer table"

text \<open>
  \<open>validateTrailerSize\<close>: the table cut to \<open>Size\<close> when \<open>Size\<close> is smaller than its
  length; \<open>(*table)[:size]\<close> panics on a negative \<open>size\<close>.
\<close>

definition validateTrailerSize :: "xref list \<Rightarrow> dict \<Rightarrow> failure + xref list" where
  "validateTrailerSize table trailer =
     (case dict_get trailer ''Size'' of
        OInt sz \<Rightarrow>
          if sint sz < int (length table) then
            (if sint sz < 0 then Inl (Panic ''slice bounds out of range'')
             else Inr (take (nat (sint sz)) table))
          else Inr table
      | _ \<Rightarrow> Inl (Error ''malformed PDF: trailer missing /Size entry''))"

text \<open>\<open>readXrefTable\<close>: the classic-table path, from the token after \<open>xref\<close>.\<close>

definition readXrefTable :: "ext \<Rightarrow> Reader \<Rightarrow> buffer \<Rightarrow> (failure + (xref list \<times> objptr \<times> dict)) option" where
  "readXrefTable E r b =
     (case parseXrefTableAndTrailer b [] of
        Inl e \<Rightarrow> Some (Inl e)
      | Inr (table, trailer, b1) \<Rightarrow>
         (case handleTrailerXRefStm E r table trailer of
            Inl e \<Rightarrow> Some (Inl e)
          | Inr (table1, trailer1, err) \<Rightarrow>
             bindR (resolvePrevXrefTables E r trailer1 table1) (\<lambda>(table2, trailer2).
             (case validateTrailerSize table2 trailer2 of
                Inl e \<Rightarrow> Some (Inl e)
              | Inr table3 \<Rightarrow> Some (Inr (table3, objptr0, trailer2))))))"



section \<open>Opening a file: \<open>NewReader\<close>\<close>

text \<open>
  The byte source \<open>f\<close> is the sequence of the file's bytes. \<open>f.ReadAt(buf, off)\<close> for a
  buffer of \<open>n\<close> bytes: the bytes read and the error, which is \<open>io.EOF\<close> when fewer than
  \<open>n\<close> bytes are left, and an error of the source for a negative offset. Other errors
  of the device are outside the model.
\<close>

definition readAt :: "bytes \<Rightarrow> nat \<Rightarrow> int \<Rightarrow> bytes \<times> failure option" where
  "readAt f n off =
     (if off < 0 then ([], Some (Error ''negative offset''))
      else if int (length f) \<le> off then ([], Some EOF)
      else (take n (drop (nat off) f),
            if length f - nat off < n then Some EOF else None))"

text \<open>\<open>bytes.IndexAny(s, chars)\<close> for ASCII \<open>chars\<close>, \<open>bytes.TrimRight\<close>, \<open>bytes.HasPrefix\<close>
  and \<open>bytes.HasSuffix\<close>.\<close>

fun bytes_IndexAny :: "bytes \<Rightarrow> bytes \<Rightarrow> int" where
  "bytes_IndexAny [] chars = - 1"
| "bytes_IndexAny (b # bs) chars =
     (if b \<in> set chars then 0
      else (let j = bytes_IndexAny bs chars in if j < 0 then - 1 else j + 1))"

definition bytes_TrimRight :: "bytes \<Rightarrow> bytes \<Rightarrow> bytes" where
  "bytes_TrimRight s cutset = rev (dropWhile (\<lambda>b. b \<in> set cutset) (rev s))"

definition bytes_HasPrefix :: "bytes \<Rightarrow> bytes \<Rightarrow> bool" where
  "bytes_HasPrefix s p \<longleftrightarrow> take (length p) s = p"

definition bytes_HasSuffix :: "bytes \<Rightarrow> bytes \<Rightarrow> bool" where
  "bytes_HasSuffix s p \<longleftrightarrow> length p \<le> length s \<and> drop (length s - length p) s = p"

text \<open>
  \<open>CheckHeader\<close>. The result is the error returned, \<open>None\<close> for \<open>nil\<close>. The variable
  \<open>err\<close> holds what \<open>ReadAt\<close> returned, \<open>nil\<close> or \<open>io.EOF\<close>, and is what the three
  \<open>return err\<close> outside the \<open>Sscanf\<close> branch return.
\<close>

definition supportedVersion :: "int \<Rightarrow> int \<Rightarrow> bool" where
  "supportedVersion major minor \<longleftrightarrow>
     (major = 1 \<and> minor \<ge> 0 \<and> minor \<le> 7) \<or> (major = 2 \<and> minor = 0)"

definition CheckHeader :: "ext \<Rightarrow> bytes \<Rightarrow> failure option" where
  "CheckHeader E f =
     (let buf = fst (readAt f 10 0); err = snd (readAt f 10 0) in
      if length buf = 0 then Some (Error ''not a PDF file: empty'')
      else (let p = bytes_Index buf (str ''%PDF-'') in
        if p < 0 then err
        else (let lineBuf = drop (nat p) buf;
                  lineEnd = (if bytes_IndexAny lineBuf [0x0D, 0x0A] < 0 then int (length lineBuf)
                             else bytes_IndexAny lineBuf [0x0D, 0x0A]);
                  line = bytes_TrimRight (take (nat lineEnd) lineBuf) [0x20, 0x09, 0x00]
              in if \<not> bytes_HasPrefix line (str ''%PDF-'') then err
                 else (case sscanfVersion E line of
                         None \<Rightarrow> Some (Error ''not a PDF file: malformed version'')
                       | Some (major, minor) \<Rightarrow>
                           if \<not> supportedVersion major minor then err else None))))"

text \<open>
  \<open>ValidateEOFMarker\<close>. The result of \<open>ReadAt\<close> is ignored, so the buffer is what was read
  followed by zero bytes. In the loop condition
  \<open>len(buf) > 0 && buf[len(buf)-1] == '\n' || buf[len(buf)-1] == '\r'\<close> the second test
  is also made on an empty buffer, where the index panics.
\<close>

function stripEOL :: "bytes \<Rightarrow> failure + bytes" where
  "stripEOL buf =
     (if buf = [] then Inl (Panic ''index out of range'')
      else if last buf = 0x0A \<or> last buf = 0x0D then stripEOL (butlast buf)
      else Inr buf)"
  by pat_completeness auto
termination
  by (relation "measure length") auto

declare stripEOL.simps [simp del]

definition endChunk :: nat where
  "endChunk = 100"

definition ValidateEOFMarker :: "bytes \<Rightarrow> int \<Rightarrow> failure option" where
  "ValidateEOFMarker f size' =
     (let got = fst (readAt f endChunk (size' - int endChunk));
          buf = got @ replicate (endChunk - length got) 0
      in case stripEOL buf of
           Inl e \<Rightarrow> Some e
         | Inr buf1 \<Rightarrow>
             if \<not> bytes_HasSuffix (bytes_TrimRight buf1 [0x0D, 0x0A, 0x09, 0x20]) (str ''%%EOF'')
             then Some (Error ''not a PDF file: missing %%EOF'')
             else None)"

text \<open>\<open>FindStartXref\<close>: the offset after the last well-ended \<open>startxref\<close>.\<close>

definition FindStartXref :: "ext \<Rightarrow> bytes \<Rightarrow> int \<Rightarrow> failure + 64 word" where
  "FindStartXref E f size' =
     (let got = fst (readAt f endChunk (size' - int endChunk));
          err = snd (readAt f endChunk (size' - int endChunk));
          buf = got @ replicate (endChunk - length got) 0
      in case (if err = Some EOF then None else err) of
           Some e \<Rightarrow> Inl e
         | None \<Rightarrow> (case findLastLine buf (str ''startxref'') of
            Inl e \<Rightarrow> Inl e
          | Inr i \<Rightarrow>
             if i < 0 then Inl (Error ''malformed PDF file: missing final startxref'')
             else (let pos = size' - int endChunk + i in
               case readToken (tokensAt E f (word_of_int pos)) of
                 Inl e \<Rightarrow> Inl e
               | Inr (tok, b1) \<Rightarrow>
                   if tok \<noteq> OKeyword ''startxref''
                   then Inl (Error ''malformed PDF file: missing startxref'')
                   else (case readToken b1 of
                           Inl e \<Rightarrow> Inl e
                         | Inr (OInt startxref, b2) \<Rightarrow> Inr startxref
                         | Inr _ \<Rightarrow>
                             Inl (Error ''malformed PDF file: startxref not followed by integer'')))))"

text \<open>\<open>readXref\<close>: the keyword \<open>xref\<close> selects the classic table, an integer the xref stream.\<close>

definition readXref :: "ext \<Rightarrow> Reader \<Rightarrow> buffer \<Rightarrow> (failure + (xref list \<times> objptr \<times> dict)) option" where
  "readXref E r b =
     (case readToken b of
        Inl e \<Rightarrow> Some (Inl e)
      | Inr (tok, b1) \<Rightarrow>
          if tok = OKeyword ''xref'' then readXrefTable E r b1
          else (case tok of
                  OInt n \<Rightarrow> Some (readXrefStream E (r_f r) b)
                | _ \<Rightarrow> Some (Inl (Error ''malformed PDF: cross-reference table nor stream found''))))"

text \<open>\<open>NewReader(f, size)\<close>: the reader handle, or the error of the first check that fails.\<close>

definition NewReader :: "ext \<Rightarrow> bytes \<Rightarrow> int \<Rightarrow> (failure + Reader) option" where
  "NewReader E f size' =
     (case CheckHeader E f of
        Some e \<Rightarrow> Some (Inl e)
      | None \<Rightarrow>
         (case ValidateEOFMarker f size' of
            Some e \<Rightarrow> Some (Inl e)
          | None \<Rightarrow>
             (case FindStartXref E f size' of
                Inl e \<Rightarrow> Some (Inl e)
              | Inr startxref \<Rightarrow>
                 (let r = \<lparr>r_f = f, r_end = word_of_int size', r_xref = [], r_trailer = [],
                            r_trailerptr = objptr0\<rparr>
                  in bindR (readXref E r (tokensAt E f startxref)) (\<lambda>(xr, trailerptr, trailer).
                     Some (Inr (r\<lparr>r_xref := xr, r_trailer := trailer,
                                  r_trailerptr := trailerptr\<rparr>)))))))"

text \<open>
  A file of 131 bytes: the header line \<open>%PDF-9.9\<close>, a comment line, at offset 61 a
  classic table with one free entry and the trailer \<open><< /Size 1 >>\<close>, at offset 112
  \<open>startxref\<close>, the offset \<open>61\<close> and \<open>%%EOF\<close>. \<open>ext_c5\<close> is a library whose lexer delivers
  the tokens of this file at the two offsets where a buffer is opened.
\<close>

definition file_c5 :: bytes where
  "file_c5 = str ''%PDF-9.9'' @ [0x0A]
     @ str ''%xxxxxxxxxxxxxxxxxxxxxxxxxxxxxxxxxxxxxxxxxxxxxxxxxx'' @ [0x0A]
     @ str ''xref'' @ [0x0A] @ str ''0 1'' @ [0x0A] @ str ''0000000000 65535 f '' @ [0x0A]
     @ str ''trailer'' @ [0x0A] @ str ''<< /Size 1 >>'' @ [0x0A]
     @ str ''startxref'' @ [0x0A] @ str ''61'' @ [0x0A] @ str ''%%EOF'' @ [0x0A]"

definition ext_c5 :: ext where
  "ext_c5 = ext0\<lparr>tokensAt := (\<lambda>f off.
       if off = 112 then [OKeyword ''startxref'', OInt 61]
       else if off = 61 then
         [OKeyword ''xref'', OInt 0, OInt 1, OInt 0, OInt 65535, OKeyword ''f'',
          OKeyword ''trailer'', ODict [(''Size'', OInt 1)], OKeyword ''startxref'', OInt 61]
       else [])\<rparr>"

section \<open>The CMap decoder\<close>

text \<open>
  \<open>byteRange\<close>, \<open>bfchar\<close>, \<open>bfrange\<close> and \<open>cmap\<close>. The array \<open>space [4][]byteRange\<close> is the
  four lists \<open>space1\<close> to \<open>space4\<close>. Go compares strings byte by byte, a proper prefix being
  smaller: the order \<open>\<le>\<close> on lists of bytes.
\<close>

record byteRange =
  low :: bytes
  high :: bytes

record bfchar =
  orig :: bytes
  repl :: bytes

record bfrange =
  lo :: bytes
  hi :: bytes
  dst :: Value

record cmap =
  space1 :: "byteRange list"
  space2 :: "byteRange list"
  space3 :: "byteRange list"
  space4 :: "byteRange list"
  cm_bfrange :: "bfrange list"
  cm_bfchar :: "bfchar list"

definition spaceOf :: "cmap \<Rightarrow> nat \<Rightarrow> byteRange list" where
  "spaceOf m n = (if n = 1 then space1 m else if n = 2 then space2 m
                  else if n = 3 then space3 m else space4 m)"

text \<open>
  \<open>findNextCodespace\<close>: the smallest \<open>n\<close> in \<open>1..4\<close>, \<open>n \<le> len(raw)\<close>, for which some range
  of length \<open>n\<close> holds \<open>raw[:n]\<close>; \<open>("", 0)\<close> if there is none.
\<close>

definition inCodespace :: "cmap \<Rightarrow> nat \<Rightarrow> bytes \<Rightarrow> bool" where
  "inCodespace m n code = list_ex (\<lambda>sp. low sp \<le> code \<and> code \<le> high sp) (spaceOf m n)"

definition findNextCodespace :: "cmap \<Rightarrow> bytes \<Rightarrow> bytes \<times> nat" where
  "findNextCodespace m raw =
     (case find (\<lambda>n. n \<le> length raw \<and> inCodespace m n (take n raw)) [1, 2, 3, 4] of
        Some n \<Rightarrow> (take n raw, n)
      | None \<Rightarrow> ([], 0))"





lemma findNextCodespace_width:
  "snd (findNextCodespace m raw) \<le> length raw"
  by (auto simp add: findNextCodespace_def split: option.splits)




text \<open>
  The codes that \<open>Decode\<close> takes off the input one after the other, each with the flag
  "a codespace holds it": the code found by \<open>findNextCodespace\<close>, or else the first byte.
\<close>

function codesOf :: "cmap \<Rightarrow> bytes \<Rightarrow> (bytes \<times> bool) list" where
  "codesOf m raw =
     (if raw = [] then []
      else if snd (findNextCodespace m raw) = 0 then (take 1 raw, False) # codesOf m (drop 1 raw)
      else (fst (findNextCodespace m raw), True)
             # codesOf m (drop (snd (findNextCodespace m raw)) raw))"
  by pat_completeness auto
termination
  by (relation "measure (\<lambda>(m, raw). length raw)") auto

declare codesOf.simps [simp del]

subsection \<open>Decoding one code, as the specification words it\<close>








section \<open>Metadata\<close>




text \<open>\<open>prefer\<close> returns \<open>a\<close> if non-empty after trimming, otherwise \<open>b\<close>.\<close>

definition "prefer" :: "bytes \<Rightarrow> bytes \<Rightarrow> bytes" where
  "prefer a b = (if TrimSpace a \<noteq> [] then a else b)"














subsection \<open>The metadata record, as the specification words it\<close>





section \<open>Pages\<close>

text \<open>
  \<open>Page\<close> walks the page tree with the labelled loop \<open>Search\<close> over the tree nodes and a
  \<open>for\<close> loop over the kids of a node. \<open>search\<close> is one round of \<open>Search\<close>, \<open>kidsLoop\<close> the
  \<open>for\<close> loop from index \<open>i\<close> with \<open>n\<close> kids to go. Nothing in the source bounds the number of
  rounds of \<open>Search\<close> (the tree of a damaged file may be cyclic): \<open>pf\<close> is the number of
  rounds allowed, and \<open>None\<close> says that they did not suffice. \<open>num\<close> is a Go \<open>int\<close>, 64 bits
  wide, compared as a signed number; \<open>num--\<close> and \<open>num -= c\<close> wrap around. Leaving either loop
  without a page returns \<open>Page{}\<close>, whose \<open>V\<close> is the null \<open>Value\<close>.
\<close>

record Page =
  p_V :: Value

function search :: "ext \<Rightarrow> nat \<Rightarrow> nat \<Rightarrow> Reader \<Rightarrow> Value \<Rightarrow> 64 word \<Rightarrow> (failure + Value) option"
  and kidsLoop :: "ext \<Rightarrow> nat \<Rightarrow> nat \<Rightarrow> Reader \<Rightarrow> Value \<Rightarrow> nat \<Rightarrow> nat \<Rightarrow> 64 word \<Rightarrow> (failure + Value) option"
where
  "search E fuel 0 r page num = None"
| "search E fuel (Suc pf) r page num =
     bindR (Key E fuel r page ''Type'') (\<lambda>t.
       if Name t \<noteq> ''Pages'' then Some (Inr Value0)
       else
         bindR (Key E fuel r page ''Count'') (\<lambda>cv.
           if sint (Int64 cv) < sint num then Some (Inr Value0)
           else
             bindR (Key E fuel r page ''Kids'') (\<lambda>kids.
               kidsLoop E fuel pf r kids 0 (Len kids) num)))"
| "kidsLoop E fuel pf r kids i 0 num = Some (Inr Value0)"
| "kidsLoop E fuel pf r kids i (Suc n) num =
     bindR (Index E fuel r kids (int i)) (\<lambda>kid.
     bindR (Key E fuel r kid ''Type'') (\<lambda>t.
       if Name t = ''Pages'' then
         bindR (Key E fuel r kid ''Count'') (\<lambda>cv.
           if sint num < sint (Int64 cv) then search E fuel pf r kid num
           else kidsLoop E fuel pf r kids (Suc i) n (num - Int64 cv))
       else if Name t = ''Page'' then
         (if num = 0 then Some (Inr kid)
          else kidsLoop E fuel pf r kids (Suc i) n (num - 1))
       else kidsLoop E fuel pf r kids (Suc i) n num))"
  by pat_completeness auto
termination
  by (relation "inv_image (less_than <*lex*> less_than)
        (\<lambda>x. case x of Inl (E, fuel, pf, r, page, num) \<Rightarrow> (2 * pf, 0)
                      | Inr (E, fuel, pf, r, kids, i, n, num) \<Rightarrow> (2 * pf + 1, n))") auto

definition Page :: "ext \<Rightarrow> nat \<Rightarrow> nat \<Rightarrow> Reader \<Rightarrow> 64 word \<Rightarrow> (failure + Page) option" where
  "Page E fuel pf r num =
     bindR (Key E fuel r (Trailer r) ''Root'') (\<lambda>root.
     bindR (Key E fuel r root ''Pages'') (\<lambda>page.
     bindR (search E fuel pf r page (num - 1)) (\<lambda>v. Some (Inr \<lparr>p_V = v\<rparr>))))"

definition NumPage :: "ext \<Rightarrow> nat \<Rightarrow> Reader \<Rightarrow> (failure + 64 word) option" where
  "NumPage E fuel r =
     bindR (Key E fuel r (Trailer r) ''Root'') (\<lambda>root.
     bindR (Key E fuel r root ''Pages'') (\<lambda>pages.
     bindR (Key E fuel r pages ''Count'') (\<lambda>c. Some (Inr (Int64 c)))))"

subsection \<open>Well-formed page trees\<close>

text \<open>
  A page tree as the PDF format describes it: a node of type \<open>Pages\<close> has the kids of its
  array \<open>Kids\<close>, each a leaf of type \<open>Page\<close> or again a node, and its integer \<open>Count\<close> is the
  number of leaves below it. \<open>wfNode E fuel r k v\<close> is that number for a leaf or node \<open>v\<close>
  that is well formed down to depth \<open>k\<close>, \<open>wfKids\<close> the number of leaves below the \<open>n\<close> kids
  from index \<open>i\<close> on. The catalog has a well-formed page tree when \<open>/Root/Pages\<close> is such a
  node.
\<close>

function wfNode :: "ext \<Rightarrow> nat \<Rightarrow> Reader \<Rightarrow> nat \<Rightarrow> Value \<Rightarrow> int option"
  and wfKids :: "ext \<Rightarrow> nat \<Rightarrow> Reader \<Rightarrow> nat \<Rightarrow> Value \<Rightarrow> nat \<Rightarrow> nat \<Rightarrow> int option"
where
  "wfNode E fuel r 0 v = None"
| "wfNode E fuel r (Suc k) v =
     (case Key E fuel r v ''Type'' of
        Some (Inr t) \<Rightarrow>
          if Name t = ''Page'' then Some 1
          else if Name t = ''Pages'' then
            (case Key E fuel r v ''Count'' of
               Some (Inr cv) \<Rightarrow>
                 (case Key E fuel r v ''Kids'' of
                    Some (Inr kids) \<Rightarrow>
                      if Kind cv = IntegerKind
                         \<and> wfKids E fuel r k kids 0 (Len kids) = Some (sint (Int64 cv))
                      then Some (sint (Int64 cv)) else None
                  | _ \<Rightarrow> None)
             | _ \<Rightarrow> None)
          else None
      | _ \<Rightarrow> None)"
| "wfKids E fuel r k kids i 0 = Some 0"
| "wfKids E fuel r k kids i (Suc n) =
     (case Index E fuel r kids (int i) of
        Some (Inr kid) \<Rightarrow>
          (case wfNode E fuel r k kid of
             Some w \<Rightarrow>
               (case wfKids E fuel r k kids (Suc i) n of
                  Some ws \<Rightarrow> Some (w + ws)
                | None \<Rightarrow> None)
           | None \<Rightarrow> None)
      | _ \<Rightarrow> None)"
  by pat_completeness auto
termination
  by (relation "inv_image (less_than <*lex*> less_than)
        (\<lambda>x. case x of Inl (E, fuel, r, k, v) \<Rightarrow> (2 * k, 0)
                      | Inr (E, fuel, r, k, kids, i, n) \<Rightarrow> (2 * k + 1, n))") auto

definition wfPageTree :: "ext \<Rightarrow> nat \<Rightarrow> Reader \<Rightarrow> nat \<Rightarrow> bool" where
  "wfPageTree E fuel r k =
     (case Key E fuel r (Trailer r) ''Root'' of
        Some (Inr root) \<Rightarrow>
          (case Key E fuel r root ''Pages'' of
             Some (Inr pages) \<Rightarrow>
               (case Key E fuel r pages ''Type'' of
                  Some (Inr t) \<Rightarrow> Name t = ''Pages'' \<and> wfNode E fuel r k pages \<noteq> None
                | _ \<Rightarrow> False)
           | _ \<Rightarrow> False)
      | _ \<Rightarrow> False)"

section \<open>Helper facts about \<open>resolve\<close>\<close>

lemma resolve_direct:
  "isValueObj x \<Longrightarrow> resolve E fuel r parent x = Some (Inr \<lparr>v_ptr = parent, v_data = x\<rparr>)"
  by (cases x) (simp_all add: resolve.simps isValueObj_def wrapValue_def)

lemma resolve_unresolvable:
  "unresolvable r ptr \<Longrightarrow> resolve E fuel r parent (ORef ptr) = Some (Inr Value0)"
  by (auto simp add: resolve.simps unresolvable_def Let_def split: if_splits)

lemma Key_dict_direct:
  "v_data v = ODict d \<Longrightarrow> isValueObj (dict_get d k) \<Longrightarrow>
   Key E fuel r v k = Some (Inr \<lparr>v_ptr = v_ptr v, v_data = dict_get d k\<rparr>)"
  by (simp add: Key_def resolve_direct)

lemma Key_stream_direct:
  "v_data v = OStream d p off \<Longrightarrow> isValueObj (dict_get d k) \<Longrightarrow>
   Key E fuel r v k = Some (Inr \<lparr>v_ptr = v_ptr v, v_data = dict_get d k\<rparr>)"
  by (simp add: Key_def resolve_direct)

lemma Key_mismatch:
  "Kind v \<noteq> DictKind \<Longrightarrow> Kind v \<noteq> StreamKind \<Longrightarrow> Key E fuel r v k = Some (Inr Value0)"
  by (cases "v_data v") (simp_all add: Key_def Kind_def)

lemma Index_mismatch:
  "Kind v \<noteq> ArrayKind \<Longrightarrow> Index E fuel r v i = Some (Inr Value0)"
  by (cases "v_data v") (simp_all add: Index_def Kind_def)

lemma Text_returns: "\<exists>s. Text E v = Inr s"
  by (cases "v_data v") (auto simp add: Text_def isUTF16_def)


section \<open>C1: the accessors\<close>

definition reader_c1 :: Reader where
  "reader_c1 = \<lparr>r_f = [], r_end = 0,
     r_xref = [\<lparr>x_ptr = \<lparr>p_id = 0, p_gen = 65535\<rparr>, x_inStream = False, x_stream = objptr0,
                 x_offset = 0\<rparr>,
               \<lparr>x_ptr = \<lparr>p_id = 1, p_gen = 0\<rparr>, x_inStream = True, x_stream = objptr0,
                 x_offset = 0\<rparr>],
     r_trailer = [(''Root'', ORef \<lparr>p_id = 1, p_gen = 0\<rparr>)],
     r_trailerptr = objptr0\<rparr>"

text \<open>
  C1, as stated, fails: \<open>Key\<close> does abort. In \<open>reader_c1\<close> the trailer's \<open>Root\<close> is the
  reference \<open>1 0 R\<close>, whose xref slot says "compressed, in object stream 0"; object 0
  is the free entry, so the stream resolves to null and \<open>resolve\<close> panics with
  "not a stream" (the case \<open>TestResolve_InStream_NotAStream\<close> expects).
\<close>

theorem C1_Key_panics_counterexample:
  "Key ext0 1 reader_c1 (Trailer reader_c1) ''Root'' = Some (Inl (Panic ''not a stream''))"
  by (simp add: Key_def Trailer_def reader_c1_def dict_get_def resolve.simps
      objStmSearch.simps objptr0_def Value0_def Let_def word_le_nat_alt)

text \<open>
  C1, amended. Every accessor returns its zero value when the kind of \<open>v\<close> does not match
  (\<open>False\<close>, \<open>0\<close>, the empty string, \<open>nil\<close>, the null \<open>Value\<close>); the accessors that do not
  resolve references are total functions of the model and \<open>Text\<close> always returns a string;
  \<open>Key\<close> and \<open>Index\<close> return the selected entry when it is a direct value, and the null
  \<open>Value\<close> when it is a reference the xref table cannot resolve or the index is out of
  range. This holds for every reader, library and fuel. (For a reference that the table
  does resolve, \<open>Key\<close> and \<open>Index\<close> can panic, as the counterexample shows.)
\<close>

theorem C1_accessors_amended:
  "(Kind v \<noteq> BoolKind \<longrightarrow> Bool v = False) \<and>
   (Kind v \<noteq> IntegerKind \<longrightarrow> Int64 v = 0) \<and>
   (Kind v \<noteq> RealKind \<and> Kind v \<noteq> IntegerKind \<longrightarrow> Float64 E v = 0) \<and>
   (Kind v \<noteq> StringKind \<longrightarrow> RawString v = [] \<and> Text E v = Inr []) \<and>
   (Kind v \<noteq> NameKind \<longrightarrow> Name v = []) \<and>
   (Kind v \<noteq> DictKind \<and> Kind v \<noteq> StreamKind \<longrightarrow>
      Key E fuel r v k = Some (Inr Value0) \<and> Keys v = None) \<and>
   (Kind v \<noteq> ArrayKind \<longrightarrow> Index E fuel r v i = Some (Inr Value0) \<and> Len v = 0) \<and>
   (\<exists>s. Text E v = Inr s) \<and>
   ((v_data v = ODict d \<or> v_data v = OStream d p off) \<and> isValueObj (dict_get d k) \<longrightarrow>
      Key E fuel r v k = Some (Inr \<lparr>v_ptr = v_ptr v, v_data = dict_get d k\<rparr>)) \<and>
   ((v_data v = ODict d \<or> v_data v = OStream d p off) \<and> dict_get d k = ORef ptr \<and>
      unresolvable r ptr \<longrightarrow> Key E fuel r v k = Some (Inr Value0)) \<and>
   (v_data v = OArray xs \<and> (i < 0 \<or> int (length xs) \<le> i) \<longrightarrow>
      Index E fuel r v i = Some (Inr Value0)) \<and>
   (v_data v = OArray xs \<and> 0 \<le> i \<and> i < int (length xs) \<and> isValueObj (xs ! nat i) \<longrightarrow>
      Index E fuel r v i = Some (Inr \<lparr>v_ptr = v_ptr v, v_data = xs ! nat i\<rparr>)) \<and>
   (v_data v = OArray xs \<and> 0 \<le> i \<and> i < int (length xs) \<and> xs ! nat i = ORef ptr \<and>
      unresolvable r ptr \<longrightarrow> Index E fuel r v i = Some (Inr Value0))"
proof -
  have c1: "Kind v \<noteq> BoolKind \<longrightarrow> Bool v = False"
    by (cases "v_data v") (simp_all add: Kind_def Bool_def)
  have c2: "Kind v \<noteq> IntegerKind \<longrightarrow> Int64 v = 0"
    by (cases "v_data v") (simp_all add: Kind_def Int64_def)
  have c3: "Kind v \<noteq> RealKind \<and> Kind v \<noteq> IntegerKind \<longrightarrow> Float64 E v = 0"
    by (cases "v_data v") (simp_all add: Kind_def Float64_def)
  have c4: "Kind v \<noteq> StringKind \<longrightarrow> RawString v = [] \<and> Text E v = Inr []"
    by (cases "v_data v") (simp_all add: Kind_def RawString_def Text_def)
  have c5: "Kind v \<noteq> NameKind \<longrightarrow> Name v = []"
    by (cases "v_data v") (simp_all add: Kind_def Name_def)
  have c6: "Kind v \<noteq> DictKind \<and> Kind v \<noteq> StreamKind \<longrightarrow>
      Key E fuel r v k = Some (Inr Value0) \<and> Keys v = None"
    by (cases "v_data v") (simp_all add: Kind_def Keys_def Key_def)
  have c7: "Kind v \<noteq> ArrayKind \<longrightarrow> Index E fuel r v i = Some (Inr Value0) \<and> Len v = 0"
    by (cases "v_data v") (simp_all add: Kind_def Len_def Index_def)
  have c8: "\<exists>s. Text E v = Inr s"
    by (rule Text_returns)
  have c9: "(v_data v = ODict d \<or> v_data v = OStream d p off) \<and> isValueObj (dict_get d k) \<longrightarrow>
      Key E fuel r v k = Some (Inr \<lparr>v_ptr = v_ptr v, v_data = dict_get d k\<rparr>)"
    using Key_dict_direct [of v d k E fuel r] Key_stream_direct [of v d p off k E fuel r]
    by blast
  have c10: "(v_data v = ODict d \<or> v_data v = OStream d p off) \<and> dict_get d k = ORef ptr \<and>
      unresolvable r ptr \<longrightarrow> Key E fuel r v k = Some (Inr Value0)"
    by (auto simp add: Key_def resolve_unresolvable)
  have c11: "v_data v = OArray xs \<and> (i < 0 \<or> int (length xs) \<le> i) \<longrightarrow>
      Index E fuel r v i = Some (Inr Value0)"
    by (auto simp add: Index_def)
  have c12: "v_data v = OArray xs \<and> 0 \<le> i \<and> i < int (length xs) \<and> isValueObj (xs ! nat i) \<longrightarrow>
      Index E fuel r v i = Some (Inr \<lparr>v_ptr = v_ptr v, v_data = xs ! nat i\<rparr>)"
    by (auto simp add: Index_def resolve_direct)
  have c13: "v_data v = OArray xs \<and> 0 \<le> i \<and> i < int (length xs) \<and> xs ! nat i = ORef ptr \<and>
      unresolvable r ptr \<longrightarrow> Index E fuel r v i = Some (Inr Value0)"
    by (auto simp add: Index_def resolve_unresolvable)
  show ?thesis
    by (intro conjI c1 c2 c3 c4 c5 c6 c7 c8 c9 c10 c11 c12 c13)
qed

definition value_c1 :: Value where
  "value_c1 = \<lparr>v_ptr = objptr0,
     v_data = ODict [(''A'', OInt 7), (''B'', ORef \<lparr>p_id = 9, p_gen = 0\<rparr>)]\<rparr>"

theorem C1_accessors_amended_witness:
  "Bool value_c1 = False \<and> Int64 value_c1 = 0 \<and> Float64 ext0 value_c1 = 0 \<and>
   RawString value_c1 = [] \<and> Text ext0 value_c1 = Inr [] \<and> Name value_c1 = [] \<and>
   Index ext0 0 reader_c1 value_c1 0 = Some (Inr Value0) \<and> Len value_c1 = 0 \<and>
   Key ext0 0 reader_c1 value_c1 ''A'' = Some (Inr \<lparr>v_ptr = objptr0, v_data = OInt 7\<rparr>) \<and>
   Key ext0 0 reader_c1 value_c1 ''B'' = Some (Inr Value0)"
proof -
  have k: "Kind value_c1 = DictKind"
    by (simp add: Kind_def value_c1_def)
  have d: "v_data value_c1 = ODict [(''A'', OInt 7), (''B'', ORef \<lparr>p_id = 9, p_gen = 0\<rparr>)]"
    by (simp add: value_c1_def)
  have a: "isValueObj (dict_get [(''A'', OInt 7), (''B'', ORef \<lparr>p_id = 9, p_gen = 0\<rparr>)] ''A'')"
    by (simp add: isValueObj_def dict_get_def)
  have b: "dict_get [(''A'', OInt 7), (''B'', ORef \<lparr>p_id = 9, p_gen = 0\<rparr>)] ''B''
      = ORef \<lparr>p_id = 9, p_gen = 0\<rparr>"
    by (simp add: dict_get_def)
  have u: "unresolvable reader_c1 \<lparr>p_id = 9, p_gen = 0\<rparr>"
    by (simp add: unresolvable_def reader_c1_def word_le_nat_alt)
  have va: "v_ptr value_c1 = objptr0" "dict_get [(''A'', OInt 7), (''B'', ORef \<lparr>p_id = 9, p_gen = 0\<rparr>)] ''A'' = OInt 7"
    by (simp_all add: value_c1_def dict_get_def)
  show ?thesis
    using C1_accessors_amended [of value_c1 ext0 0 reader_c1 "''A''" 0
        "[(''A'', OInt 7), (''B'', ORef \<lparr>p_id = 9, p_gen = 0\<rparr>)]" objptr0 0
        "\<lparr>p_id = 9, p_gen = 0\<rparr>" "[]"]
      C1_accessors_amended [of value_c1 ext0 0 reader_c1 "''B''" 0
        "[(''A'', OInt 7), (''B'', ORef \<lparr>p_id = 9, p_gen = 0\<rparr>)]" objptr0 0
        "\<lparr>p_id = 9, p_gen = 0\<rparr>" "[]"]
      k d a b u va
    by simp
qed

section \<open>C9: access permissions\<close>

lemma permsOfP_bits:
  "permsOfP p = \<lparr>canPrint = bit p 2, canModify = bit p 3, extractContent = bit p 4,
     modifyAnnotations = bit p 5, fillInForm = (bit p 8 \<or> bit p 5),
     extractAccessibility = bit p 9, assembleDocument = bit p 10,
     canPrintFaithful = (bit p 11 \<or> bit p 2)\<rparr>"
  by (simp only: permsOfP_def Let_def flip: bit_iff_and_push_bit_not_eq_0)

definition reader_c9 :: Reader where
  "reader_c9 = \<lparr>r_f = [], r_end = 0, r_xref = [],
     r_trailer = [(''Encrypt'', ODict [(''P'', OInt (- 1600))])], r_trailerptr = objptr0\<rparr>"

text \<open>
  C9, as stated, fails. With \<open>P = -1600\<close> (bits 9 and 12 set, bits 3 and 6 clear)
  fill-form is granted although annotate is not, and print-faithful is granted although
  print is not: the implications run the other way.
\<close>

theorem C9_fill_form_counterexample:
  "accessPermissions ext0 0 reader_c9 =
     Some (Inr \<lparr>canPrint = False, canModify = False, extractContent = False,
       modifyAnnotations = False, fillInForm = True, extractAccessibility = False,
       assembleDocument = False, canPrintFaithful = True\<rparr>)"
  by (simp add: accessPermissions_def reader_c9_def Key_def Trailer_def dict_get_def
      resolve.simps wrapValue_def Kind_def Int64_def permsOfP_def)

text \<open>
  C9, amended. When the trailer's \<open>Encrypt\<close> entry is not null, the permissions are read
  from the bits of the integer \<open>Encrypt.P\<close> (bit \<open>n\<close> of the claim is \<open>bit P (n - 1)\<close>):
  bit 3 print, bit 4 modify, bit 5 extract, bit 6 annotate, bit 10 extract for
  accessibility, bit 11 assemble; fill-form is granted when bit 9 is set or annotate is
  granted, and print-faithful when bit 12 is set or print is granted.
\<close>

theorem C9_accessPermissions_amended:
  assumes "Key E fuel r (Trailer r) ''Encrypt'' = Some (Inr enc)"
    and "Kind enc \<noteq> NullKind"
    and "Key E fuel r enc ''P'' = Some (Inr pv)"
  shows "accessPermissions E fuel r =
     Some (Inr \<lparr>canPrint = bit (Int64 pv) 2, canModify = bit (Int64 pv) 3,
       extractContent = bit (Int64 pv) 4, modifyAnnotations = bit (Int64 pv) 5,
       fillInForm = (bit (Int64 pv) 8 \<or> bit (Int64 pv) 5),
       extractAccessibility = bit (Int64 pv) 9, assembleDocument = bit (Int64 pv) 10,
       canPrintFaithful = (bit (Int64 pv) 11 \<or> bit (Int64 pv) 2)\<rparr>)"
  using assms by (simp add: accessPermissions_def permsOfP_bits bit_ucast_iff)

theorem C9_accessPermissions_amended_witness:
  "accessPermissions ext0 0 reader_c9 =
     Some (Inr \<lparr>canPrint = False, canModify = False, extractContent = False,
       modifyAnnotations = False, fillInForm = True, extractAccessibility = False,
       assembleDocument = False, canPrintFaithful = True\<rparr>)"
proof -
  have e: "Key ext0 0 reader_c9 (Trailer reader_c9) ''Encrypt''
      = Some (Inr \<lparr>v_ptr = objptr0, v_data = ODict [(''P'', OInt (- 1600))]\<rparr>)"
    by (simp add: Key_def Trailer_def reader_c9_def dict_get_def resolve.simps wrapValue_def)
  have k: "Kind \<lparr>v_ptr = objptr0, v_data = ODict [(''P'', OInt (- 1600))]\<rparr> \<noteq> NullKind"
    by (simp add: Kind_def)
  have p: "Key ext0 0 reader_c9 \<lparr>v_ptr = objptr0, v_data = ODict [(''P'', OInt (- 1600))]\<rparr> ''P''
      = Some (Inr \<lparr>v_ptr = objptr0, v_data = OInt (- 1600)\<rparr>)"
    by (simp add: Key_def dict_get_def resolve.simps wrapValue_def)
  show ?thesis
    using C9_accessPermissions_amended [OF e k p]
    by (simp add: Int64_def bit_iff_and_push_bit_not_eq_0)
qed

section \<open>C4: the \<open>startxref\<close> locator\<close>

lemma wsBits_val: "wsBits = [0x100003601, 0, 0, 0]"
  by (simp add: wsBits_def wsBits_set_def)

definition buf_c4 :: bytes where
  "buf_c4 = str ''startxref'' @ [0x0A, 0x20] @ str ''12'' @ [0x0A] @ str ''%%EOF''"

text \<open>
  C4 on the code. In \<open>buf_c4\<close> the keyword \<open>startxref\<close> (at index 0) is followed by a line
  feed, a space and the offset \<open>12\<close>. The run of whitespace skipped after the keyword is
  the two bytes at indices 9 and 10 and it contains an EOL, so by the claim (and by the
  comment above \<open>findLastLine\<close>: "at least one of the skipped characters was a valid
  EOL") the occurrence is accepted. \<open>EndsWithEOL\<close> looks only at the last skipped byte,
  the space, and \<open>findLastLine\<close> answers \<open>-1\<close>.
\<close>

theorem C4_findLastLine_rejects_eol_then_space:
  "findLastLine buf_c4 (str ''startxref'') = Inr (- 1) \<and>
   SkipWhitespace buf_c4 9 = 11 \<and> buf_c4 ! 9 = 0x0A \<and> buf_c4 ! 10 = 0x20"
  by (simp add: findLastLine_def buf_c4_def str_def occurrences.simps SkipWhitespace.simps
      EndsWithEOL_def isWhitespace_def wsBits_val)

section \<open>C7: FlateDecode with the PNG-Up predictor\<close>

lemma addInto_eq: "length h = length t \<Longrightarrow> addInto h t = map2 (+) h t"
  by (induction h t rule: addInto.induct) auto

lemma take_app_min: "take k (p @ e) = take (min k (length p)) p @ take (k - min k (length p)) (drop (min k (length p)) p @ e)"
  by (auto simp add: min_def)

lemma pngUpRead_inv:
  "pngInv c r rows \<Longrightarrow> pngUpRead r k out = (out', e, r') \<Longrightarrow>
     out' = out @ take k (pngRemaining r rows) \<and>
     (if k \<le> length (pngRemaining r rows) 
      then e = None \<and> (\<exists>rows'. pngInv c r' rows' \<and> pngRemaining r' rows' = drop k (pngRemaining r rows))
      else e = Some EOF)"
proof (induction r k out arbitrary: rows rule: pngUpRead.induct)
  case (1 r k out)
  show ?case
  proof (cases "k = 0")
    case True
    with "1.prems" show ?thesis by (auto simp add: pngUpRead.simps)
  next
    case k: False
    show ?thesis
    proof (cases "pr_pend r = []")
      case False
      define m where "m = min k (length (pr_pend r))"
      let ?r1 = "r\<lparr>pr_pend := drop m (pr_pend r)\<rparr>"
      from "1.prems"(2) k False
      have e: "pngUpRead ?r1 (k - m) (out @ take m (pr_pend r)) = (out', e, r')"
        by (subst (asm) pngUpRead.simps) (simp add: m_def Let_def)
      have inv1: "pngInv c ?r1 rows" using "1.prems"(1) by (simp add: pngInv_def)
      have rem1: "pngRemaining ?r1 rows = drop m (pngRemaining r rows)"
        by (simp add: pngRemaining_def m_def)
      have mk: "m \<le> k" "m \<le> length (pngRemaining r rows)" by (simp_all add: m_def pngRemaining_def)
      have tk: "take k (pngRemaining r rows) = take m (pr_pend r) @ take (k - m) (drop m (pngRemaining r rows))"
        unfolding pngRemaining_def m_def by (auto simp add: min_def)
      from "1.IH"(1)[OF k False m_def inv1 e] show ?thesis
        using mk tk by (auto simp add: rem1 split: if_splits)
    next
      case True
      show ?thesis
      proof (cases rows)
        case Nil
        with "1.prems"(1) have "ReadFull (pr_src r) (pr_end r) (length (pr_tmp r)) = ([], Some EOF, [])"
          by (simp add: pngInv_def encodeRows_def ReadFull_def)
        with "1.prems"(2) k True Nil show ?thesis
          by (subst (asm) pngUpRead.simps) (auto simp add: pngRemaining_def)
      next
        case (Cons row rows')
        with "1.prems"(1) have lr: "length row = c" and src: "pr_src r = 2 # row @ encodeRows rows'"
          and lt: "length (pr_tmp r) = Suc c" and lh: "length (pr_hist r) = Suc c" and en: "pr_end r = None"
          and all: "list_all (\<lambda>row. length row = c) rows'"
          by (simp_all add: pngInv_def encodeRows_def)
        have rf: "ReadFull (pr_src r) (pr_end r) (length (pr_tmp r)) = (2 # row, None, encodeRows rows')"
          by (simp add: ReadFull_def src lt lr)
        define hist where "hist = addInto (pr_hist r) (2 # row)"
        let ?r2 = "r\<lparr>pr_src := encodeRows rows', pr_tmp := 2 # row, pr_hist := hist, pr_pend := tl hist\<rparr>"
        from "1.prems"(2) k True rf lh lr
        have e2: "pngUpRead ?r2 k out = (out', e, r')"
          by (subst (asm) pngUpRead.simps) (simp add: hist_def Let_def)
        have hm: "hist = map2 (+) (pr_hist r) (2 # row)"
          unfolding hist_def by (rule addInto_eq) (simp add: lh lr)
        obtain h0 hs where hs: "pr_hist r = h0 # hs" using lh by (cases "pr_hist r") auto
        have thist: "tl hist = map2 (+) (tl (pr_hist r)) row" by (simp add: hm hs)
        have inv2: "pngInv c ?r2 rows'"
          by (simp add: pngInv_def en all lr hist_def addInto_length lh)
        have rem2: "pngRemaining ?r2 rows' = pngRemaining r rows"
          by (simp add: pngRemaining_def True Cons thist)
        have np: "\<not> pr_pend r \<noteq> []" using True by simp
        have t1: "2 # row \<noteq> []" by simp
        have t2: "\<not> hd (2 # row) \<noteq> 2" by simp
        have t3: "\<not> length (pr_hist r) < length (2 # row)" by (simp add: lh lr)
        show ?thesis
          using "1.IH"(2)[OF k np rf[symmetric] refl refl t1 t2 t3 hist_def inv2 e2]
          unfolding rem2 by blast
      qed
    qed
  qed
qed

lemma drain_inv:
  "pngInv c r rows \<Longrightarrow> drain sz j r = (pngRemaining r rows, None)"
proof (induction "length (pngRemaining r rows)" arbitrary: r rows j rule: less_induct)
  case less
  obtain out e r' where rd: "pngUpRead r (Suc (sz j)) [] = (out, e, r')"
    by (cases "pngUpRead r (Suc (sz j)) []") auto
  note pi = pngUpRead_inv[OF less.prems rd]
  show ?case
  proof (cases "Suc (sz j) \<le> length (pngRemaining r rows)")
    case True
    with pi obtain rows' where e: "e = None" and o: "out = take (Suc (sz j)) (pngRemaining r rows)"
      and inv': "pngInv c r' rows'" and rem': "pngRemaining r' rows' = drop (Suc (sz j)) (pngRemaining r rows)"
      by auto
    have "length (pngRemaining r' rows') < length (pngRemaining r rows)"
      using True by (simp add: rem')
    from less.hyps[OF this inv'] have "drain sz (Suc j) r' = (pngRemaining r' rows', None)" .
    then show ?thesis
      by (subst drain.simps) (simp add: rd e o rem')
  next
    case False
    with pi have e: "e = Some EOF" and o: "out = take (Suc (sz j)) (pngRemaining r rows)"
      by auto
    with False show ?thesis
      by (subst drain.simps) (simp add: rd)
  qed
qed

lemma pngUpExpected_length:
  "length h = c \<Longrightarrow> list_all (\<lambda>row. length row = c) rows \<Longrightarrow> length (pngUpExpected h rows) = length rows * c"
  by (induction rows arbitrary: h) auto

lemma sint_of_nat_small:
  assumes "n < 2 ^ 63"
  shows "sint (of_nat n :: 64 word) = int n"
proof -
  have "int n < 2 ^ 63" using assms by (metis of_nat_less_iff of_nat_numeral of_nat_power)
  then have "signed_take_bit 63 (int n) = int n"
    by (intro signed_take_bit_int_eq_self) auto
  then show ?thesis
    by (simp add: signed_of_nat)
qed

lemma sint_one_plus_of_nat:
  assumes "c < 2 ^ 62"
  shows "sint (1 + of_nat c :: 64 word) = int (Suc c)"
proof -
  have "(1 + of_nat c :: 64 word) = of_nat (Suc c)" by simp
  moreover have "Suc c < 2 ^ 63" using assms by simp
  ultimately show ?thesis by (simp only: sint_of_nat_small)
qed

text \<open>
  C7. A FlateDecode filter whose \<open>DecodeParms\<close> have \<open>Predictor = 12\<close> and
  \<open>Columns = c \<ge> 1\<close>, on an inflated payload of \<open>n\<close> complete records (a byte \<open>2\<close> and
  \<open>c\<close> bytes each): \<open>applyFilter\<close> returns a \<open>pngUpReader\<close>, and reading it to exhaustion,
  with buffers of any sizes, ends regularly and yields exactly the running column sums
  modulo 256 of the records, \<open>n * c\<close> bytes.
\<close>

theorem C7_pngUp_decodes_rows:
  assumes "Key E fuel r param ''Predictor'' = Some (Inr pv)" and "Int64 pv = 12"
    and "Key E fuel r param ''Columns'' = Some (Inr cv)" and "Int64 cv = of_nat c"
    and "1 \<le> c" and "c < 2 ^ 62"
    and "zlibInflate E (fst (rdrAll rd)) (snd (rdrAll rd)) = Inr (encodeRows rows, None)"
    and "list_all (\<lambda>row. length row = c) rows"
  shows "\<exists>st. applyFilter E fuel r rd ''FlateDecode'' param = Some (Inr (RdPngUp st)) \<and>
      drain sz 0 st = (pngUpExpected (replicate c 0) rows, None) \<and>
      length (pngUpExpected (replicate c 0) rows) = length rows * c"
proof -
  define st where "st = \<lparr>pr_src = encodeRows rows, pr_end = None,
     pr_hist = replicate (Suc c) 0, pr_tmp = replicate (Suc c) 0, pr_pend = []\<rparr>"
  have k: "Kind pv \<noteq> NullKind"
    using assms(2) by (cases "v_data pv") (simp_all add: Kind_def Int64_def)
  have s: "sint (1 + Int64 cv) = int (Suc c)"
    using assms(4,6) by (simp only: sint_one_plus_of_nat)
  have a: "applyFilter E fuel r rd ''FlateDecode'' param = Some (Inr (RdPngUp st))"
    using assms(1,2,3,7) k s by (simp add: applyFilter_def st_def Let_def nat_add_distrib)
  have inv: "pngInv c st rows"
    using assms(8) by (simp add: pngInv_def st_def)
  have rem: "pngRemaining st rows = pngUpExpected (replicate c 0) rows"
    by (simp add: pngRemaining_def st_def)
  have d: "drain sz 0 st = (pngUpExpected (replicate c 0) rows, None)"
    using drain_inv [OF inv, of sz 0] by (simp add: rem)
  have l: "length (pngUpExpected (replicate c 0) rows) = length rows * c"
    using assms(8) by (simp add: pngUpExpected_length)
  from a d l show ?thesis by blast
qed

definition param_c7 :: Value where
  "param_c7 = \<lparr>v_ptr = objptr0, v_data = ODict [(''Predictor'', OInt 12), (''Columns'', OInt 2)]\<rparr>"

theorem C7_pngUp_decodes_rows_witness:
  "\<exists>st. applyFilter (ext_inflate [2, 1, 2, 2, 3, 4]) 0 reader_c1 (RdData [] None) ''FlateDecode'' param_c7
        = Some (Inr (RdPngUp st)) \<and>
      drain (\<lambda>j. 0) 0 st = ([1, 2, 4, 6], None)"
proof -
  have p: "Key (ext_inflate [2, 1, 2, 2, 3, 4]) 0 reader_c1 param_c7 ''Predictor''
      = Some (Inr \<lparr>v_ptr = objptr0, v_data = OInt 12\<rparr>)"
    by (simp add: Key_def param_c7_def dict_get_def resolve.simps wrapValue_def)
  have c: "Key (ext_inflate [2, 1, 2, 2, 3, 4]) 0 reader_c1 param_c7 ''Columns''
      = Some (Inr \<lparr>v_ptr = objptr0, v_data = OInt 2\<rparr>)"
    by (simp add: Key_def param_c7_def dict_get_def resolve.simps wrapValue_def)
  have z: "zlibInflate (ext_inflate [2, 1, 2, 2, 3, 4]) (fst (rdrAll (RdData [] None)))
      (snd (rdrAll (RdData [] None))) = Inr (encodeRows [[1, 2], [3, 4]], None)"
    by (simp add: ext_inflate_def encodeRows_def)
  have i12: "Int64 \<lparr>v_ptr = objptr0, v_data = OInt 12\<rparr> = 12"
    by (simp add: Int64_def)
  have ic: "Int64 \<lparr>v_ptr = objptr0, v_data = OInt 2\<rparr> = of_nat 2"
    by (simp add: Int64_def)
  have c1: "1 \<le> (2::nat)" and c2: "(2::nat) < 2 ^ 62"
    by simp_all
  have rows: "list_all (\<lambda>row. length row = 2) [[1, 2], [3, 4 :: byte]]"
    by simp
  have ex: "pngUpExpected (replicate 2 0) [[1, 2], [3, 4]] = [1, 2, 4, 6]"
    by (simp add: numeral_2_eq_2)
  show ?thesis
    using C7_pngUp_decodes_rows [OF p i12 c ic c1 c2 z rows, of "\<lambda>j. 0"]
    unfolding ex by blast
qed

section \<open>C3: classic table entries and filled slots\<close>





lemma setIfEmpty_filled:
  assumes "0 \<le> sint x" "nat (sint x) < length t" "x_ptr (t ! nat (sint x)) \<noteq> objptr0"
  shows "setIfEmpty t x v = Inr t"
proof -
  have "sint (x + 1) \<le> int (length t)"
  proof (cases "sint (x + 1) = sint x + 1")
    case True
    with assms show ?thesis by simp
  next
    case False
    have "sint (x + 1) \<le> sint x + 1"
    proof (cases "sint x + 1 < 2 ^ 63")
      case True
      moreover have "- (2 ^ 63) \<le> sint x + 1" using sint_ge[of x] by simp
      ultimately have "signed_take_bit 63 (sint x + 1) = sint x + 1"
        by (intro signed_take_bit_int_eq_self) auto
      then show ?thesis by (simp add: sint_word_ariths)
    next
      case False
      then have "2 ^ 63 \<le> sint x + 1" by simp
      then have "signed_take_bit 63 (sint x + 1) \<le> sint x + 1 - 2 ^ Suc 63"
        by (rule signed_take_bit_int_less_eq)
      then show ?thesis by (simp add: sint_word_ariths)
    qed
    with assms show ?thesis by simp
  qed
  then have "ensureLen t (sint (x + 1)) = t" by (simp add: ensureLen_def)
  with assms show ?thesis by (simp add: setIfEmpty_def Let_def)
qed






















section \<open>C2: the length of the final table\<close>

definition buf_c2 :: buffer where
  "buf_c2 = [OInt 0, OInt 2, OInt 0, OInt 65535, OKeyword ''f'', OInt 9, OInt 0, OKeyword ''n'',
     OKeyword ''trailer'', ODict [(''Size'', OInt 5)]]"

definition table_c2 :: "xref list" where
  "table_c2 = [xref0,
     \<lparr>x_ptr = \<lparr>p_id = 1, p_gen = 0\<rparr>, x_inStream = False, x_stream = objptr0, x_offset = 9\<rparr>]"

lemma parse_buf_c2:
  "parseXrefTableAndTrailer buf_c2 [] = Inr (table_c2, [(''Size'', OInt 5)], [])"
  by code_simp

lemma handle_c2:
  "handleTrailerXRefStm ext0 reader_c1 table_c2 [(''Size'', OInt 5)]
     = Inr (table_c2, [(''Size'', OInt 5)], None)"
  by (simp add: handleTrailerXRefStm_def dict_get_def)

text \<open>
  C2, as stated, fails. The section \<open>buf_c2\<close> holds one subsection \<open>0 2\<close> (a free entry
  and an in-use entry) and a trailer with \<open>Size 5\<close> and no \<open>Prev\<close>. The final table has the
  two slots that were parsed, not five: \<open>validateTrailerSize\<close> only ever shortens.
\<close>

theorem C2_shorter_table_counterexample:
  "readXrefTable ext0 reader_c1 buf_c2 = Some (Inr (table_c2, objptr0, [(''Size'', OInt 5)])) \<and>
   length table_c2 = 2"
proof -
  have "length table_c2 = 2"
    by (simp add: table_c2_def)
  then show ?thesis
    by (simp add: readXrefTable_def parse_buf_c2 handle_c2 resolvePrevXrefTables_def
        prevLoop.simps dict_get_def validateTrailerSize_def)
qed

text \<open>
  C2, amended. On the classic-table path, for a section whose trailer has no \<open>Prev\<close>
  entry and declares a \<open>Size \<ge> 0\<close>: the final table is the table parsed from the section
  (merged with the table of the \<open>XRefStm\<close> stream, if the trailer names one), cut to
  \<open>Size\<close> slots when it is longer and unchanged otherwise. Its length is the smaller of
  the two numbers; it is \<open>Size\<close> only if at least \<open>Size\<close> slots were parsed.
\<close>

theorem C2_final_table_amended:
  assumes "parseXrefTableAndTrailer b [] = Inr (table, trailer, b1)"
    and "handleTrailerXRefStm E r table trailer = Inr (table1, trailer1, err)"
    and "dict_get trailer1 ''Prev'' = ONull"
    and "dict_get trailer1 ''Size'' = OInt sz" and "0 \<le> sint sz"
  shows "readXrefTable E r b = Some (Inr (take (nat (sint sz)) table1, objptr0, trailer1)) \<and>
     length (take (nat (sint sz)) table1) = min (length table1) (nat (sint sz))"
  using assms
  by (simp add: readXrefTable_def resolvePrevXrefTables_def prevLoop.simps
      validateTrailerSize_def)

theorem C2_final_table_amended_witness:
  "readXrefTable ext0 reader_c1 buf_c2
     = Some (Inr (take (nat (sint (5 :: 64 word))) table_c2, objptr0, [(''Size'', OInt 5)])) \<and>
   length (take (nat (sint (5 :: 64 word))) table_c2) = min (length table_c2) (nat (sint (5 :: 64 word)))"
proof -
  have p: "dict_get [(''Size'', OInt 5)] ''Prev'' = ONull"
    and s: "dict_get [(''Size'', OInt 5)] ''Size'' = OInt 5"
    by (simp_all add: dict_get_def)
  have n: "0 \<le> sint (5 :: 64 word)"
    by simp
  show ?thesis
    using C2_final_table_amended [OF parse_buf_c2 handle_c2 p s n] .
qed


section \<open>C5: the header check\<close>

text \<open>
  C5 on the code. \<open>file_c5\<close> starts with the header line \<open>%PDF-9.9\<close>, a version outside
  the supported set, and is otherwise a well-formed file of 131 bytes. \<open>CheckHeader\<close>
  finds the version unsupported and executes \<open>return err\<close>, but \<open>err\<close> is the result of
  \<open>ReadAt\<close>, which is \<open>nil\<close> for every file of ten bytes or more: the header is accepted
  and \<open>NewReader\<close> returns a reader handle. The same \<open>return err\<close> accepts a file whose
  first ten bytes hold no \<open>%PDF-\<close> at all.
\<close>

theorem C5_bad_header_is_accepted:
  "CheckHeader ext_c5 file_c5 = None \<and>
   NewReader ext_c5 file_c5 131 =
     Some (Inr \<lparr>r_f = file_c5, r_end = 131, r_xref = [xref0],
                 r_trailer = [(''Size'', OInt 1)], r_trailerptr = objptr0\<rparr>) \<and>
   CheckHeader ext_c5 (str ''This is not a PDF file'') = None"
proof -
  have a: "CheckHeader ext_c5 file_c5 = None"
    by code_simp
  have b: "NewReader ext_c5 file_c5 131 =
     Some (Inr \<lparr>r_f = file_c5, r_end = 131, r_xref = [xref0],
                 r_trailer = [(''Size'', OInt 1)], r_trailerptr = objptr0\<rparr>)"
    by code_simp
  have c: "CheckHeader ext_c5 (str ''This is not a PDF file'') = None"
    by code_simp
  from a b c show ?thesis by (intro conjI)
qed

section \<open>C6: the CMap decoder\<close>

lemma DecodeUTF8OrPreserve_nonempty: "b \<noteq> [] \<Longrightarrow> DecodeUTF8OrPreserve b \<noteq> []"
  by (subst DecodeUTF8OrPreserve.simps) simp










lemma codesOf_nonempty: "raw \<noteq> [] \<Longrightarrow> codesOf m raw \<noteq> []"
  by (subst codesOf.simps) simp


















section \<open>C8: \<open>Metadata\<close> prefers XMP\<close>




























section \<open>C10: \<open>Page\<close> out of range\<close>

declare search.simps [simp del] kidsLoop.simps [simp del] wfNode.simps [simp del] wfKids.simps [simp del]

lemma wfKids_Suc_E:
  assumes "wfKids E fuel r k kids i (Suc n) = Some rem"
  obtains kid w ws where "Index E fuel r kids (int i) = Some (Inr kid)"
    and "wfNode E fuel r k kid = Some w"
    and "wfKids E fuel r k kids (Suc i) n = Some ws" and "rem = w + ws"
  using assms by (auto simp add: wfKids.simps split: option.splits sum.splits)

lemma wfNode_E:
  assumes "wfNode E fuel r k v = Some w"
  obtains k' t where "k = Suc k'" and "Key E fuel r v ''Type'' = Some (Inr t)"
    and "Name t = ''Page'' \<and> w = 1
         \<or> Name t = ''Pages'' \<and> (\<exists>cv kids. Key E fuel r v ''Count'' = Some (Inr cv)
              \<and> Key E fuel r v ''Kids'' = Some (Inr kids)
              \<and> w = sint (Int64 cv)
              \<and> wfKids E fuel r k' kids 0 (Len kids) = Some w)"
  using assms
  by (cases k) (auto simp add: wfNode.simps split: option.splits sum.splits if_splits)

lemma wfKids_nonneg:
  assumes "\<And>v w. wfNode E fuel r k v = Some w \<Longrightarrow> 0 \<le> w"
  shows "wfKids E fuel r k kids i n = Some rem \<Longrightarrow> 0 \<le> rem"
proof (induction n arbitrary: i rem)
  case 0
  then show ?case by (simp add: wfKids.simps)
next
  case (Suc n)
  from Suc.prems obtain kid w ws where a: "wfNode E fuel r k kid = Some w"
    and b: "wfKids E fuel r k kids (Suc i) n = Some ws" and c: "rem = w + ws"
    by (rule wfKids_Suc_E)
  from assms[OF a] Suc.IH[OF b] c show ?case by simp
qed

lemma wfNode_nonneg: "wfNode E fuel r k v = Some w \<Longrightarrow> 0 \<le> w"
proof (induction k arbitrary: v w)
  case 0
  then show ?case by (simp add: wfNode.simps)
next
  case (Suc k)
  from Suc.prems obtain k' t where k: "Suc k = Suc k'"
    and d: "Name t = ''Page'' \<and> w = 1
         \<or> Name t = ''Pages'' \<and> (\<exists>cv kids. Key E fuel r v ''Count'' = Some (Inr cv)
              \<and> Key E fuel r v ''Kids'' = Some (Inr kids)
              \<and> w = sint (Int64 cv)
              \<and> wfKids E fuel r k' kids 0 (Len kids) = Some w)"
    by (rule wfNode_E)
  from k have k': "k' = k" by simp
  from d show ?case
  proof
    assume "Name t = ''Page'' \<and> w = 1" then show ?thesis by simp
  next
    assume "Name t = ''Pages'' \<and> (\<exists>cv kids. Key E fuel r v ''Count'' = Some (Inr cv)
              \<and> Key E fuel r v ''Kids'' = Some (Inr kids)
              \<and> w = sint (Int64 cv)
              \<and> wfKids E fuel r k' kids 0 (Len kids) = Some w)"
    then obtain kids where "wfKids E fuel r k kids 0 (Len kids) = Some w" using k' by blast
    then show ?thesis using wfKids_nonneg[of E fuel r k] Suc.IH by blast
  qed
qed

lemma sint_sub_nonneg:
  fixes a b :: "64 word"
  assumes "0 \<le> sint b" "sint b \<le> sint a"
  shows "sint (a - b) = sint a - sint b"
proof -
  have "sint a < 2 ^ 63" using sint_lt[of a] by simp
  then have "- (2 ^ 63) \<le> sint a - sint b \<and> sint a - sint b < 2 ^ 63" using assms by simp
  then show ?thesis by (simp add: sint_word_ariths signed_take_bit_int_eq_self)
qed

lemma sint_dec_pos:
  fixes a :: "64 word"
  assumes "1 \<le> sint a"
  shows "a \<noteq> 0 \<and> sint (a - 1) = sint a - 1"
  using sint_sub_nonneg[of 1 a] assms by auto

lemma sint_dec_neg:
  fixes a :: "64 word"
  assumes "sint a < 0"
  shows "a \<noteq> 0 \<and> (sint (a - 1) < 0 \<or> sint (a - 1) = 2 ^ 63 - 1)"
proof -
  have ne: "a \<noteq> 0" using assms by auto
  have ge: "- (2 ^ 63) \<le> sint a" using sint_ge[of a] by simp
  show ?thesis
  proof (cases "sint a = - (2 ^ 63)")
    case True
    have "sint (a - 1) = signed_take_bit 63 (sint a - 1)" by (simp add: sint_word_ariths)
    also have "\<dots> = 2 ^ 63 - 1" unfolding True by (simp add: signed_take_bit_eq_take_bit_minus take_bit_eq_mod bit_iff_odd)
    finally show ?thesis using ne by simp
  next
    case False
    then have "- (2 ^ 63) \<le> sint a - 1 \<and> sint a - 1 < 2 ^ 63" using ge assms by simp
    then have "sint (a - 1) = sint a - 1" by (simp add: sint_word_ariths signed_take_bit_int_eq_self)
    then show ?thesis using ne assms by simp
  qed
qed

definition isPages :: "ext \<Rightarrow> nat \<Rightarrow> Reader \<Rightarrow> Value \<Rightarrow> bool" where
  "isPages E fuel r v = (case Key E fuel r v ''Type'' of Some (Inr t) \<Rightarrow> Name t = ''Pages'' | _ \<Rightarrow> False)"

lemma kidsLoop_null:
  assumes IH: "\<And>page num c. wfNode E fuel r k page = Some c \<Longrightarrow> isPages E fuel r page
            \<Longrightarrow> sint num < 0 \<or> c \<le> sint num
            \<Longrightarrow> search E fuel pf r page num = Some (Inr Value0)"
  shows "wfKids E fuel r k kids i n = Some rem \<Longrightarrow> rem < 2 ^ 63
         \<Longrightarrow> sint num < 0 \<or> rem \<le> sint num
         \<Longrightarrow> kidsLoop E fuel pf r kids i n num = Some (Inr Value0)"
proof (induction n arbitrary: i num rem)
  case 0
  show ?case by (simp add: kidsLoop.simps)
next
  case (Suc n)
  from Suc.prems(1) obtain kid w ws where kid: "Index E fuel r kids (int i) = Some (Inr kid)"
    and w: "wfNode E fuel r k kid = Some w"
    and ws: "wfKids E fuel r k kids (Suc i) n = Some ws" and rem: "rem = w + ws"
    by (rule wfKids_Suc_E)
  have w0: "0 \<le> w" using w by (rule wfNode_nonneg)
  have ws0: "0 \<le> ws" using ws wfKids_nonneg[of E fuel r k] wfNode_nonneg by blast
  have wsb: "ws < 2 ^ 63" using Suc.prems(2) rem w0 by simp
  from w obtain k' t where t: "Key E fuel r kid ''Type'' = Some (Inr t)"
    and d: "Name t = ''Page'' \<and> w = 1
         \<or> Name t = ''Pages'' \<and> (\<exists>cv kids'. Key E fuel r kid ''Count'' = Some (Inr cv)
              \<and> Key E fuel r kid ''Kids'' = Some (Inr kids')
              \<and> w = sint (Int64 cv)
              \<and> wfKids E fuel r k' kids' 0 (Len kids') = Some w)"
    by (rule wfNode_E)
  from d show ?case
  proof
    assume a: "Name t = ''Page'' \<and> w = 1"
    have next': "sint (num - 1) < 0 \<or> ws \<le> sint (num - 1)" and ne: "num \<noteq> 0"
    proof -
      from Suc.prems(3) have "(sint (num - 1) < 0 \<or> ws \<le> sint (num - 1)) \<and> num \<noteq> 0"
      proof
        assume "sint num < 0"
        from sint_dec_neg[OF this] wsb show ?thesis by auto
      next
        assume "rem \<le> sint num"
        then have "1 \<le> sint num" using rem a ws0 by simp
        from sint_dec_pos[OF this] \<open>rem \<le> sint num\<close> rem a show ?thesis by simp
      qed
      then show "sint (num - 1) < 0 \<or> ws \<le> sint (num - 1)" and "num \<noteq> 0" by simp_all
    qed
    have "kidsLoop E fuel pf r kids (Suc i) n (num - 1) = Some (Inr Value0)"
      using Suc.IH[OF ws wsb next'] .
    then show ?thesis using kid t a ne by (simp add: kidsLoop.simps)
  next
    assume "Name t = ''Pages'' \<and> (\<exists>cv kids'. Key E fuel r kid ''Count'' = Some (Inr cv)
              \<and> Key E fuel r kid ''Kids'' = Some (Inr kids')
              \<and> w = sint (Int64 cv)
              \<and> wfKids E fuel r k' kids' 0 (Len kids') = Some w)"
    then obtain cv where nm: "Name t = ''Pages''"
      and cv: "Key E fuel r kid ''Count'' = Some (Inr cv)" and wc: "w = sint (Int64 cv)"
      by blast
    have pg: "isPages E fuel r kid" using t nm by (simp add: isPages_def)
    show ?thesis
    proof (cases "sint num < sint (Int64 cv)")
      case True
      have "sint num < 0 \<or> w \<le> sint num"
        using Suc.prems(3) True rem wc ws0 by auto
      from IH[OF w pg this] show ?thesis using kid t nm cv True by (simp add: kidsLoop.simps)
    next
      case False
      then have ge: "sint (Int64 cv) \<le> sint num" by simp
      have "0 \<le> sint (Int64 cv)" using w0 wc by simp
      from sint_sub_nonneg[OF this ge]
      have sub: "sint (num - Int64 cv) = sint num - w" using wc by simp
      have "sint num < 0 \<or> rem \<le> sint num" using Suc.prems(3) .
      then have "rem \<le> sint num" using ge w0 wc by auto
      then have "sint (num - Int64 cv) < 0 \<or> ws \<le> sint (num - Int64 cv)"
        using sub rem by simp
      from Suc.IH[OF ws wsb this] show ?thesis using kid t nm cv False by (simp add: kidsLoop.simps)
    qed
  qed
qed

lemma search_null:
  "wfNode E fuel r k page = Some c \<Longrightarrow> isPages E fuel r page \<Longrightarrow> k \<le> pf
   \<Longrightarrow> sint num < 0 \<or> c \<le> sint num
   \<Longrightarrow> search E fuel pf r page num = Some (Inr Value0)"
proof (induction k arbitrary: pf page num c)
  case 0
  then show ?case by (simp add: wfNode.simps)
next
  case (Suc k)
  from Suc.prems(3) obtain pf' where pf: "pf = Suc pf'" and le: "k \<le> pf'"
    by (cases pf) auto
  from Suc.prems(1) obtain k' t where k: "Suc k = Suc k'"
    and t: "Key E fuel r page ''Type'' = Some (Inr t)"
    and d: "Name t = ''Page'' \<and> c = 1
         \<or> Name t = ''Pages'' \<and> (\<exists>cv kids. Key E fuel r page ''Count'' = Some (Inr cv)
              \<and> Key E fuel r page ''Kids'' = Some (Inr kids)
              \<and> c = sint (Int64 cv)
              \<and> wfKids E fuel r k' kids 0 (Len kids) = Some c)"
    by (rule wfNode_E)
  from k have k': "k' = k" by simp
  have nm: "Name t = ''Pages''" using Suc.prems(2) t by (simp add: isPages_def)
  with d k' obtain cv kids where cv: "Key E fuel r page ''Count'' = Some (Inr cv)"
    and kids: "Key E fuel r page ''Kids'' = Some (Inr kids)"
    and c: "c = sint (Int64 cv)"
    and wk: "wfKids E fuel r k kids 0 (Len kids) = Some c"
    by auto
  have cb: "c < 2 ^ 63" unfolding c using sint_lt[of "Int64 cv"] by simp
  have loop: "kidsLoop E fuel pf' r kids 0 (Len kids) num = Some (Inr Value0)"
  proof (rule kidsLoop_null[OF _ wk cb Suc.prems(4)])
    fix page' c' and num' :: "64 word"
    assume "wfNode E fuel r k page' = Some c'" "isPages E fuel r page'"
      "sint num' < 0 \<or> c' \<le> sint num'"
    then show "search E fuel pf' r page' num' = Some (Inr Value0)"
      using Suc.IH le by blast
  qed
  show ?case unfolding pf using t nm cv kids c loop by (simp add: search.simps)
qed

lemma Page_init:
  fixes i :: "64 word"
  assumes "c < 2 ^ 63" "sint i < 1 \<or> c < sint i" "0 \<le> c"
  shows "sint (i - 1) < 0 \<or> c \<le> sint (i - 1)"
proof (cases "1 \<le> sint i")
  case True
  from sint_dec_pos[OF True] assms(2) True show ?thesis by auto
next
  case False
  then have z: "sint i \<le> 0" by simp
  show ?thesis
  proof (cases "sint i = 0")
    case True
    then have "i = 0" by (simp add: signed_eq_0_iff)
    then show ?thesis by simp
  next
    case False
    with z have "sint i < 0" by simp
    from sint_dec_neg[OF this] assms(1) show ?thesis by auto
  qed
qed

lemma wfPageTree_E:
  assumes "wfPageTree E fuel r k"
  obtains root pages t c where "Key E fuel r (Trailer r) ''Root'' = Some (Inr root)"
    and "Key E fuel r root ''Pages'' = Some (Inr pages)"
    and "Key E fuel r pages ''Type'' = Some (Inr t)" and "Name t = ''Pages''"
    and "wfNode E fuel r k pages = Some c"
proof -
  from assms obtain root where root: "Key E fuel r (Trailer r) ''Root'' = Some (Inr root)"
    unfolding wfPageTree_def
    by (cases "Key E fuel r (Trailer r) ''Root''") (auto split: sum.split_asm)
  from assms obtain pages where pages: "Key E fuel r root ''Pages'' = Some (Inr pages)"
    using root
    by (cases "Key E fuel r root ''Pages''") (auto simp add: wfPageTree_def split: sum.split_asm)
  from assms obtain t where t: "Key E fuel r pages ''Type'' = Some (Inr t)"
    using root pages
    by (cases "Key E fuel r pages ''Type''") (auto simp add: wfPageTree_def split: sum.split_asm)
  from assms have "Name t = ''Pages''" and "wfNode E fuel r k pages \<noteq> None"
    using root pages t by (simp_all add: wfPageTree_def)
  with root pages t that show thesis by blast
qed

text \<open>
  C10: for every reader whose catalog has a well-formed page tree (of any depth \<open>k\<close>),
  \<open>NumPage\<close> returns a number \<open>n\<close>, and for every \<open>i\<close> with \<open>i < 1\<close> or \<open>i > n\<close> the call
  \<open>Page(i)\<close> returns, after at most \<open>k\<close> rounds of \<open>Search\<close>, without error or panic, the
  \<open>Page\<close> whose \<open>V\<close> is the null \<open>Value\<close>. \<open>Page\<close> is a function of the reader and assigns to
  none of its fields.
\<close>

theorem C10_Page_out_of_range_is_null:
  assumes "wfPageTree E fuel r k"
  shows "\<exists>n. NumPage E fuel r = Some (Inr n)
           \<and> (\<forall>i pf. (sint i < 1 \<or> sint n < sint i) \<and> k \<le> pf
                \<longrightarrow> (\<exists>p. Page E fuel pf r i = Some (Inr p) \<and> p_V p = Value0 \<and> IsNull (p_V p)))"
proof -
  from assms obtain root pages t c where root: "Key E fuel r (Trailer r) ''Root'' = Some (Inr root)"
    and pages: "Key E fuel r root ''Pages'' = Some (Inr pages)"
    and t: "Key E fuel r pages ''Type'' = Some (Inr t)" and nm: "Name t = ''Pages''"
    and wf: "wfNode E fuel r k pages = Some c"
    by (rule wfPageTree_E)
  have pg: "isPages E fuel r pages" using t nm by (simp add: isPages_def)
  from wf obtain k' t' where t': "Key E fuel r pages ''Type'' = Some (Inr t')"
    and d: "Name t' = ''Page'' \<and> c = 1
         \<or> Name t' = ''Pages'' \<and> (\<exists>cv kids. Key E fuel r pages ''Count'' = Some (Inr cv)
              \<and> Key E fuel r pages ''Kids'' = Some (Inr kids)
              \<and> c = sint (Int64 cv)
              \<and> wfKids E fuel r k' kids 0 (Len kids) = Some c)"
    by (rule wfNode_E)
  from t t' nm d obtain cv where cv: "Key E fuel r pages ''Count'' = Some (Inr cv)"
    and c: "c = sint (Int64 cv)" by auto
  have n: "NumPage E fuel r = Some (Inr (Int64 cv))"
    by (simp add: NumPage_def root pages cv)
  have cb: "c < 2 ^ 63" unfolding c using sint_lt[of "Int64 cv"] by simp
  have c0: "0 \<le> c" using wf by (rule wfNode_nonneg)
  have "\<exists>p. Page E fuel pf r i = Some (Inr p) \<and> p_V p = Value0 \<and> IsNull (p_V p)"
    if a: "sint i < 1 \<or> sint (Int64 cv) < sint i" and le: "k \<le> pf" for i pf
  proof -
    have "sint (i - 1) < 0 \<or> c \<le> sint (i - 1)"
      using Page_init[OF cb _ c0, of i] a c by simp
    from search_null[OF wf pg le this]
    show ?thesis by (simp add: Page_def root pages IsNull_def Value0_def Kind_def)
  qed
  with n show ?thesis by blast
qed

text \<open>
  The theorem at work: a tree of two pages, the second below an inner node. \<open>Page(1)\<close>
  and \<open>Page(2)\<close> are the two leaves; \<open>Page(0)\<close>, \<open>Page(3)\<close> and \<open>Page(-5)\<close> are null.
\<close>

definition reader_c10 :: Reader where
  "reader_c10 = \<lparr>r_f = [], r_end = 0, r_xref = [],
     r_trailer = [(''Root'', ODict [(''Pages'',
        ODict [(''Type'', OName ''Pages''), (''Count'', OInt 2),
               (''Kids'', OArray [
                  ODict [(''Type'', OName ''Page''), (''Rotate'', OInt 0)],
                  ODict [(''Type'', OName ''Pages''), (''Count'', OInt 1),
                         (''Kids'', OArray [
                            ODict [(''Type'', OName ''Page''), (''Rotate'', OInt 90)]])]])])])],
     r_trailerptr = objptr0\<rparr>"

lemma wf_c10: "wfPageTree ext0 0 reader_c10 3"
  by code_simp

lemma NumPage_c10: "NumPage ext0 0 reader_c10 = Some (Inr 2)"
  by code_simp

lemma Page_in_range_c10:
  "Page ext0 0 3 reader_c10 1
     = Some (Inr \<lparr>p_V = \<lparr>v_ptr = objptr0,
                           v_data = ODict [(''Type'', OName ''Page''), (''Rotate'', OInt 0)]\<rparr>\<rparr>)"
  "Page ext0 0 3 reader_c10 2
     = Some (Inr \<lparr>p_V = \<lparr>v_ptr = objptr0,
                           v_data = ODict [(''Type'', OName ''Page''), (''Rotate'', OInt 90)]\<rparr>\<rparr>)"
  by code_simp+

theorem C10_Page_out_of_range_is_null_witness:
  "NumPage ext0 0 reader_c10 = Some (Inr 2)
   \<and> Page ext0 0 3 reader_c10 0 = Some (Inr \<lparr>p_V = Value0\<rparr>)
   \<and> Page ext0 0 3 reader_c10 3 = Some (Inr \<lparr>p_V = Value0\<rparr>)
   \<and> Page ext0 0 3 reader_c10 (- 5) = Some (Inr \<lparr>p_V = Value0\<rparr>)"
proof -
  from C10_Page_out_of_range_is_null[OF wf_c10]
  have a: "\<forall>i pf. (sint i < 1 \<or> sint (2 :: 64 word) < sint i) \<and> 3 \<le> pf
            \<longrightarrow> (\<exists>p. Page ext0 0 pf reader_c10 i = Some (Inr p) \<and> p_V p = Value0 \<and> IsNull (p_V p))"
    unfolding NumPage_c10 by simp
  have s0: "sint (0 :: 64 word) < 1" by simp
  have s3: "sint (2 :: 64 word) < sint (3 :: 64 word)" by simp
  have s5: "sint (- 5 :: 64 word) < 1" by simp
  have "\<exists>p. Page ext0 0 3 reader_c10 0 = Some (Inr p) \<and> p_V p = Value0 \<and> IsNull (p_V p)"
    using a s0 by blast
  moreover have "\<exists>p. Page ext0 0 3 reader_c10 3 = Some (Inr p) \<and> p_V p = Value0 \<and> IsNull (p_V p)"
    using a s3 by blast
  moreover have "\<exists>p. Page ext0 0 3 reader_c10 (- 5) = Some (Inr p) \<and> p_V p = Value0 \<and> IsNull (p_V p)"
    using a s5 by blast
  ultimately show ?thesis using NumPage_c10 by auto
qed

end
